theory Spec2Isabelle
  imports
    Complex_Main
    "HOL-Library.Char_ord"
    "HOL-Library.List_Lexorder"
    "HOL-Library.Product_Lexorder"
    "HOL-Library.Log_Nat"
    "HOL-Library.Multiset"
begin

section \<open>JavaScript numbers and the coercion \<open>Number(x)\<close>\<close>

text \<open>
  A JavaScript number is a binary64 value. The finite ones are carried by the rational
  they denote (the sign of zero is dropped: no operation of the handlers tells
  \<open>-0\<close> from \<open>0\<close>).
\<close>

datatype jsnum = NaN | PosInf | NegInf | Fin rat


text \<open>
  The values a field of a JSON request body can hold, as far as they are modelled: a
  missing field is \<open>JUndefined\<close>; arrays and nested objects are left out.
\<close>

datatype jsval = JUndefined | JNull | JBool bool | JNum jsnum | JStr string

subsection \<open>Rounding a rational to the nearest binary64\<close>

definition pow2 :: "int \<Rightarrow> rat" where
  "pow2 k = (if 0 \<le> k then 2 ^ nat k else 1 / 2 ^ nat (- k))"

definition floor_log2 :: "rat \<Rightarrow> int" where
  \<comment> \<open>For \<open>a > 0\<close>: the \<open>e\<close> with \<open>2^e \<le> a < 2^(e+1)\<close>.\<close>
  "floor_log2 a =
     (let (p, q) = quotient_of a; b = bitlen p - bitlen q
      in if pow2 b \<le> a then b else b - 1)"

definition round_half_even :: "rat \<Rightarrow> int" where
  "round_half_even x =
     (let f = \<lfloor>x\<rfloor>; d = x - of_int f
      in if d < 1 / 2 then f
         else if 1 / 2 < d then f + 1
         else if even f then f else f + 1)"

definition to_double :: "rat \<Rightarrow> jsnum" where
  \<comment> \<open>Round to nearest, ties to even, with 53 bits of precision, gradual underflow
      below \<open>2^-1022\<close> and overflow to an infinity from \<open>2^1024\<close> on.\<close>
  "to_double q =
     (if q = 0 then Fin 0
      else let a = \<bar>q\<bar>;
               e = max (floor_log2 a) (- 1022);
               u = pow2 (e - 52);
               r = of_int (round_half_even (a / u)) * u
           in if pow2 1024 \<le> r then (if q < 0 then NegInf else PosInf)
              else Fin (if q < 0 then - r else r))"

subsection \<open>String to number\<close>

definition is_ws :: "char \<Rightarrow> bool" where
  \<comment> \<open>The ASCII white space and line terminators (tab, LF, VT, FF, CR, space); the
      white space beyond ASCII that JavaScript also strips is not modelled.\<close>
  "is_ws c = ((of_char c :: int) \<in> {9, 10, 11, 12, 13, 32})"

definition js_trim :: "string \<Rightarrow> string" where
  "js_trim s = rev (dropWhile is_ws (rev (dropWhile is_ws s)))"

definition digit_val :: "char \<Rightarrow> int option" where
  \<comment> \<open>The value of a character as a digit up to base 16.\<close>
  "digit_val c =
     (let n = (of_char c :: int)
      in if 48 \<le> n \<and> n \<le> 57 then Some (n - 48)
         else if 97 \<le> n \<and> n \<le> 102 then Some (n - 87)
         else if 65 \<le> n \<and> n \<le> 70 then Some (n - 55)
         else None)"

definition is_digit :: "int \<Rightarrow> char \<Rightarrow> bool" where
  "is_digit b c = (case digit_val c of None \<Rightarrow> False | Some d \<Rightarrow> d < b)"

definition digits_value :: "int \<Rightarrow> string \<Rightarrow> int" where
  "digits_value b cs = foldl (\<lambda>acc c. acc * b + (case digit_val c of None \<Rightarrow> 0 | Some d \<Rightarrow> d)) 0 cs"

definition all_digits :: "int \<Rightarrow> string \<Rightarrow> bool" where
  "all_digits b cs = (cs \<noteq> [] \<and> list_all (is_digit b) cs)"

definition exponent_part :: "string \<Rightarrow> int option" where
  \<comment> \<open>ExponentPart: \<open>e\<close> or \<open>E\<close>, an optional sign, decimal digits. The empty string
      is the absent exponent.\<close>
  "exponent_part s =
     (case s of
        [] \<Rightarrow> Some 0
      | c # t \<Rightarrow>
          if c = CHR ''e'' \<or> c = CHR ''E'' then
            (case t of
               [] \<Rightarrow> None
             | d # t' \<Rightarrow>
                 if d = CHR ''-'' then
                   (if all_digits 10 t' then Some (- digits_value 10 t') else None)
                 else if d = CHR ''+'' then
                   (if all_digits 10 t' then Some (digits_value 10 t') else None)
                 else if all_digits 10 t then Some (digits_value 10 t) else None)
          else None)"

definition unsigned_decimal :: "string \<Rightarrow> jsnum" where
  \<comment> \<open>StrUnsignedDecimalLiteral: \<open>Infinity\<close>, or digits with an optional fraction and
      an optional exponent, at least one digit before or after the point.\<close>
  "unsigned_decimal s =
     (if s = ''Infinity'' then PosInf
      else let ip = takeWhile (is_digit 10) s;
               r1 = dropWhile (is_digit 10) s;
               fp = (case r1 of [] \<Rightarrow> [] | c # t \<Rightarrow> if c = CHR ''.'' then takeWhile (is_digit 10) t else []);
               r2 = (case r1 of [] \<Rightarrow> [] | c # t \<Rightarrow> if c = CHR ''.'' then dropWhile (is_digit 10) t else r1)
           in if ip = [] \<and> fp = [] then NaN
              else (case exponent_part r2 of
                      None \<Rightarrow> NaN
                    | Some ex \<Rightarrow>
                        let m = rat_of_int (digits_value 10 (ip @ fp));
                            k = ex - int (length fp)
                        in to_double (if 0 \<le> k then m * 10 ^ nat k else m / 10 ^ nat (- k))))"

definition negate :: "jsnum \<Rightarrow> jsnum" where
  "negate n = (case n of NaN \<Rightarrow> NaN | PosInf \<Rightarrow> NegInf | NegInf \<Rightarrow> PosInf | Fin q \<Rightarrow> Fin (- q))"

definition non_decimal :: "string \<Rightarrow> jsnum option" where
  \<comment> \<open>NonDecimalIntegerLiteral: \<open>0x\<close>, \<open>0o\<close>, \<open>0b\<close> (either case) and digits of that
      base; no sign.\<close>
  "non_decimal s =
     (case s of
        z # p # ds \<Rightarrow>
          if z \<noteq> CHR ''0'' then None
          else let b = (if p = CHR ''x'' \<or> p = CHR ''X'' then 16
                        else if p = CHR ''o'' \<or> p = CHR ''O'' then 8
                        else if p = CHR ''b'' \<or> p = CHR ''B'' then 2 else (0::int))
               in if b = 0 then None
                  else if all_digits b ds then Some (to_double (rat_of_int (digits_value b ds)))
                  else Some NaN
      | _ \<Rightarrow> None)"

definition StringToNumber :: "string \<Rightarrow> jsnum" where
  "StringToNumber str =
     (let s = js_trim str
      in if s = [] then Fin 0
         else (case non_decimal s of
                 Some n \<Rightarrow> n
               | None \<Rightarrow>
                   (case s of
                      c # t \<Rightarrow>
                        if c = CHR ''-'' then negate (unsigned_decimal t)
                        else if c = CHR ''+'' then unsigned_decimal t
                        else unsigned_decimal s
                    | [] \<Rightarrow> Fin 0)))"

text \<open>\<open>Number(v)\<close> on a primitive value.\<close>

fun Number :: "jsval \<Rightarrow> jsnum" where
  "Number JUndefined = NaN"
| "Number JNull = Fin 0"
| "Number (JBool b) = Fin (if b then 1 else 0)"
| "Number (JNum n) = n"
| "Number (JStr s) = StringToNumber s"

section \<open>Dates\<close>

text \<open>
  A \<open>Date\<close> is carried by its time value, the milliseconds since the epoch in UTC. A
  time value beyond \<open>maxTime\<close> on either side stands for an Invalid Date. The
  functions below are the day and time arithmetic of the language standard.
\<close>

definition msPerDay :: int where
  "msPerDay = 86400000"

definition maxTime :: int where
  "maxTime = 8640000000000000"

definition Day :: "int \<Rightarrow> int" where
  "Day t = t div msPerDay"

definition TimeWithinDay :: "int \<Rightarrow> int" where
  "TimeWithinDay t = t mod msPerDay"

definition DaysInYear :: "int \<Rightarrow> int" where
  "DaysInYear y =
     (if y mod 4 \<noteq> 0 then 365
      else if y mod 100 \<noteq> 0 then 366
      else if y mod 400 \<noteq> 0 then 365 else 366)"

definition DayFromYear :: "int \<Rightarrow> int" where
  "DayFromYear y =
     365 * (y - 1970) + (y - 1969) div 4 - (y - 1901) div 100 + (y - 1601) div 400"

function year_down :: "int \<Rightarrow> int \<Rightarrow> int" where
  "year_down d y = (if d < DayFromYear y then year_down d (y - 1) else y)"
  by pat_completeness auto
termination
  by (relation "measure (\<lambda>(d, y). nat (DayFromYear y - d))")
     (auto simp: DayFromYear_def)

definition YearFromDay :: "int \<Rightarrow> int" where
  \<comment> \<open>The largest year that starts on or before day \<open>d\<close>, searched downwards from a
      year that is not before it.\<close>
  "YearFromDay d =
     year_down d (1970 + (if 0 \<le> d then d div 365 else d div 366) + 1)"

definition YearFromTime :: "int \<Rightarrow> int" where
  "YearFromTime t = YearFromDay (Day t)"

definition DayWithinYear :: "int \<Rightarrow> int" where
  "DayWithinYear t = Day t - DayFromYear (YearFromTime t)"

definition InLeapYear :: "int \<Rightarrow> int" where
  "InLeapYear t = (if DaysInYear (YearFromTime t) = 366 then 1 else 0)"

definition month_start :: "int \<Rightarrow> int \<Rightarrow> int" where
  \<comment> \<open>The day within the year on which month \<open>m\<close> (0 to 11; 12 is the year's end)
      starts; \<open>l\<close> is 1 in a leap year and 0 otherwise.\<close>
  "month_start l m =
     (if m = 0 then 0 else if m = 1 then 31 else if m = 2 then 59 + l
      else if m = 3 then 90 + l else if m = 4 then 120 + l else if m = 5 then 151 + l
      else if m = 6 then 181 + l else if m = 7 then 212 + l else if m = 8 then 243 + l
      else if m = 9 then 273 + l else if m = 10 then 304 + l else if m = 11 then 334 + l
      else 365 + l)"

definition month_of_day :: "int \<Rightarrow> int \<Rightarrow> int" where
  "month_of_day l d =
     (if d < 31 then 0 else if d < 59 + l then 1 else if d < 90 + l then 2
      else if d < 120 + l then 3 else if d < 151 + l then 4 else if d < 181 + l then 5
      else if d < 212 + l then 6 else if d < 243 + l then 7 else if d < 273 + l then 8
      else if d < 304 + l then 9 else if d < 334 + l then 10 else 11)"

definition MonthFromTime :: "int \<Rightarrow> int" where
  "MonthFromTime t = month_of_day (InLeapYear t) (DayWithinYear t)"

definition DateFromTime :: "int \<Rightarrow> int" where
  "DateFromTime t =
     DayWithinYear t - month_start (InLeapYear t) (MonthFromTime t) + 1"

definition HourFromTime :: "int \<Rightarrow> int" where
  "HourFromTime t = (t div 3600000) mod 24"

definition MinFromTime :: "int \<Rightarrow> int" where
  "MinFromTime t = (t div 60000) mod 60"

definition SecFromTime :: "int \<Rightarrow> int" where
  "SecFromTime t = (t div 1000) mod 60"

definition msFromTime :: "int \<Rightarrow> int" where
  "msFromTime t = t mod 1000"

definition MakeTime :: "int \<Rightarrow> int \<Rightarrow> int \<Rightarrow> int \<Rightarrow> int" where
  "MakeTime h m s ms = h * 3600000 + m * 60000 + s * 1000 + ms"

definition MakeDay :: "int \<Rightarrow> int \<Rightarrow> int \<Rightarrow> int" where
  \<comment> \<open>\<open>month\<close> counts from 0; a date past the month's end runs into the next month.\<close>
  "MakeDay year month date =
     (let ym = year + month div 12; mn = month mod 12
      in DayFromYear ym + month_start (if DaysInYear ym = 366 then 1 else 0) mn + date - 1)"

definition MakeDate :: "int \<Rightarrow> int \<Rightarrow> int" where
  "MakeDate day time = day * msPerDay + time"

definition TimeClip :: "int \<Rightarrow> int option" where
  \<comment> \<open>\<open>None\<close> is NaN.\<close>
  "TimeClip t = (if \<bar>t\<bar> \<le> maxTime then Some t else None)"

subsection \<open>Formatting: \<open>toISOString\<close>\<close>

definition digit_char :: "int \<Rightarrow> char" where
  "digit_char n = char_of (48 + n)"

fun pad :: "nat \<Rightarrow> int \<Rightarrow> string" where
  \<comment> \<open>The last \<open>k\<close> decimal digits of \<open>n\<close>, zero-padded.\<close>
  "pad 0 n = []"
| "pad (Suc k) n = pad k (n div 10) @ [digit_char (n mod 10)]"

definition year_string :: "int \<Rightarrow> string" where
  \<comment> \<open>Four digits for the years 0 to 9999, a sign and six digits otherwise.\<close>
  "year_string y =
     (if 0 \<le> y \<and> y \<le> 9999 then pad 4 y
      else (if y < 0 then ''-'' else ''+'') @ pad 6 \<bar>y\<bar>)"

definition toISOString :: "int \<Rightarrow> string option" where
  \<comment> \<open>\<open>None\<close> is the RangeError that an Invalid Date raises.\<close>
  "toISOString t =
     (if \<bar>t\<bar> \<le> maxTime then
        Some (year_string (YearFromTime t) @ ''-'' @ pad 2 (MonthFromTime t + 1) @ ''-''
              @ pad 2 (DateFromTime t) @ ''T'' @ pad 2 (HourFromTime t) @ '':''
              @ pad 2 (MinFromTime t) @ '':'' @ pad 2 (SecFromTime t) @ ''.''
              @ pad 3 (msFromTime t) @ ''Z'')
      else None)"

definition slice :: "nat \<Rightarrow> nat \<Rightarrow> string \<Rightarrow> string" where
  \<comment> \<open>\<open>s.slice(a, b)\<close> for \<open>0 \<le> a \<le> b\<close>.\<close>
  "slice a b s = take (b - a) (drop a s)"

subsection \<open>Parsing: \<open>Date.parse\<close>\<close>

text \<open>
  \<open>Date.parse\<close> on the date-time string format of the language standard, for the
  strings that end in the UTC designator \<open>Z\<close>: a year (four digits, or a sign and six
  digits), optionally a month and a day, \<open>T\<close>, hours and minutes, optionally seconds,
  \<open>Z\<close>. The handler only passes strings that end in \<open>:00Z\<close>, so the forms without an
  offset or with a numeric one cannot reach it; a fraction of a second cannot either.
  What an engine makes of a string outside the format is left to it by the standard;
  here every such string is NaN (\<open>None\<close>). As in V8, a day up to 31 is taken in every
  month and runs over into the next one, and hour 24 is midnight at the day's end.
\<close>

definition two_digits :: "char \<Rightarrow> char \<Rightarrow> int option" where
  "two_digits a b = (if is_digit 10 a \<and> is_digit 10 b then Some (digits_value 10 [a, b]) else None)"

definition parse_year :: "string \<Rightarrow> (int \<times> string) option" where
  "parse_year s =
     (case s of
        a # b # c # d # e # f # g # r \<Rightarrow>
          if (a = CHR ''+'' \<or> a = CHR ''-'') then
            (if all_digits 10 [b, c, d, e, f, g] then
               (let y = digits_value 10 [b, c, d, e, f, g]
                in if a = CHR ''-'' then (if y = 0 then None else Some (- y, r)) else Some (y, r))
             else None)
          else if all_digits 10 [a, b, c, d] then Some (digits_value 10 [a, b, c, d], e # f # g # r)
          else None
      | a # b # c # d # r \<Rightarrow>
          if all_digits 10 [a, b, c, d] then Some (digits_value 10 [a, b, c, d], r) else None
      | _ \<Rightarrow> None)"

definition parse_dash2 :: "string \<Rightarrow> (int \<times> string) option" where
  \<comment> \<open>A hyphen and two digits.\<close>
  "parse_dash2 s =
     (case s of
        h # a # b # r \<Rightarrow>
          if h = CHR ''-'' then (case two_digits a b of None \<Rightarrow> None | Some v \<Rightarrow> Some (v, r))
          else None
      | _ \<Rightarrow> None)"

definition parse_time :: "string \<Rightarrow> int option" where
  \<comment> \<open>After the \<open>T\<close>: \<open>HH:mm\<close> or \<open>HH:mm:ss\<close>, then \<open>Z\<close> and the end of the string.\<close>
  "parse_time s =
     (case s of
        h1 # h2 # c1 # m1 # m2 # r \<Rightarrow>
          if c1 \<noteq> CHR '':'' then None
          else (case (two_digits h1 h2, two_digits m1 m2) of
                  (Some h, Some m) \<Rightarrow>
                    (let sec = (if r = ''Z'' then Some 0
                                else (case r of
                                        [c2, s1, s2, z] \<Rightarrow>
                                          if c2 = CHR '':'' \<and> z = CHR ''Z'' then two_digits s1 s2 else None
                                      | _ \<Rightarrow> None))
                     in case sec of
                          None \<Rightarrow> None
                        | Some sc \<Rightarrow>
                            if h \<le> 23 \<and> m \<le> 59 \<and> sc \<le> 59 then Some (MakeTime h m sc 0)
                            else if h = 24 \<and> m = 0 \<and> sc = 0 then Some (MakeTime 24 0 0 0)
                            else None)
                | _ \<Rightarrow> None)
      | _ \<Rightarrow> None)"

definition parse_date_rest :: "int \<Rightarrow> string \<Rightarrow> int option" where
  \<comment> \<open>After the year: optionally month and day, then \<open>T\<close> and the time.\<close>
  "parse_date_rest y s =
     (let finish = (\<lambda>mo d r.
            if 1 \<le> mo \<and> mo \<le> 12 \<and> 1 \<le> d \<and> d \<le> 31 then
              (case r of
                 t # r' \<Rightarrow>
                   if t = CHR ''T'' then
                     (case parse_time r' of
                        None \<Rightarrow> None
                      | Some tm \<Rightarrow> TimeClip (MakeDate (MakeDay y (mo - 1) d) tm))
                   else None
               | [] \<Rightarrow> None)
            else None)
      in case parse_dash2 s of
           None \<Rightarrow> finish 1 1 s
         | Some (mo, r) \<Rightarrow>
             (case parse_dash2 r of
                None \<Rightarrow> finish mo 1 r
              | Some (d, r') \<Rightarrow> finish mo d r'))"

definition Date_parse :: "string \<Rightarrow> int option" where
  "Date_parse s =
     (case parse_year s of
        None \<Rightarrow> None
      | Some (y, r) \<Rightarrow> parse_date_rest y r)"

section \<open>The document store\<close>

text \<open>
  The four collections. A collection is the list of its documents in insertion order.
  The identifier \<open>_id\<close> that the database gives every document is not modelled. The
  counters collection only ever holds the document \<open>sessionId\<close>: \<open>counters\<close> is its
  \<open>seq\<close> field, \<open>None\<close> while the document does not exist.
\<close>

record user =
  userName :: string
  isAdmin :: bool
  passwordHash :: "string option"
  keyHash :: string
  createdAt :: int

record session =
  id' :: rat
  startAt :: int
  description :: string
  createdAt_s :: int

record attempt =
  sessionId :: rat
  userName_a :: string
  rate :: rat
  createdAt_a :: int

record store =
  users :: "user list"
  sessions :: "session list"
  attempts :: "attempt list"
  counters :: "int option"

definition findOne :: "('a \<Rightarrow> bool) \<Rightarrow> 'a list \<Rightarrow> 'a option" where
  "findOne P xs = List.find P xs"

definition insertOne :: "'a \<Rightarrow> 'a list \<Rightarrow> 'a list" where
  "insertOne x xs = xs @ [x]"

definition insertMany :: "'a list \<Rightarrow> 'a list \<Rightarrow> 'a list" where
  "insertMany ys xs = xs @ ys"

fun deleteOne :: "('a \<Rightarrow> bool) \<Rightarrow> 'a list \<Rightarrow> 'a list" where
  \<comment> \<open>Deletes the first document that matches.\<close>
  "deleteOne P [] = []"
| "deleteOne P (x # xs) = (if P x then xs else x # deleteOne P xs)"

definition deleteMany :: "('a \<Rightarrow> bool) \<Rightarrow> 'a list \<Rightarrow> 'a list" where
  "deleteMany P xs = filter (\<lambda>x. \<not> P x) xs"

definition countDocuments :: "'a list \<Rightarrow> nat" where
  "countDocuments xs = length xs"

section \<open>Configuration, password hashing and the sequence allocator\<close>

text \<open>
  The environment of the process: the variable \<open>JWT_SECRET\<close> (\<open>None\<close> when unset) and
  the keyed hash of the crypto library, HMAC-SHA256 in hexadecimal, taken as a
  parameter: key first, message second.
\<close>

record env =
  JWT_SECRET :: "string option"
  hmac_sha256_hex :: "string \<Rightarrow> string \<Rightarrow> string"

definition hmacKeyHash :: "env \<Rightarrow> string \<Rightarrow> string" where
  \<comment> \<open>An unset or empty secret is falsy: the key is then \<open>change-me\<close>.\<close>
  "hmacKeyHash e password =
     (let secret = (case JWT_SECRET e of None \<Rightarrow> ''change-me''
                    | Some k \<Rightarrow> if k = [] then ''change-me'' else k)
      in hmac_sha256_hex e secret (js_trim password))"

definition findOneAndUpdate_inc :: "store \<Rightarrow> int option \<times> store" where
  \<comment> \<open>\<open>findOneAndUpdate\<close> on the counter document with \<open>$inc: {seq: 1}\<close>, \<open>upsert\<close> and
      \<open>returnDocument: 'after'\<close>: one atomic step of the database. The result is the
      \<open>seq\<close> field of the document after the update.\<close>
  "findOneAndUpdate_inc db =
     (let seq = (case counters db of None \<Rightarrow> 1 | Some k \<Rightarrow> k + 1)
      in (Some seq, db\<lparr>counters := Some seq\<rparr>))"

definition getNextSessionId :: "store \<Rightarrow> int \<times> store" where
  "getNextSessionId db =
     (let (doc_seq, db') = findOneAndUpdate_inc db
      in ((case doc_seq of Some seq \<Rightarrow> seq | None \<Rightarrow> 1), db'))"

section \<open>Seeding\<close>

text \<open>
  \<open>now\<close> is the clock at the call; the successive readings of the clock within one
  call are taken to be the same instant.
\<close>

definition seedPlayers :: "(string \<times> string) list" where
  "seedPlayers = [(''Artur_1'', ''artur''), (''Antuan'', ''a''), (''Maria'', ''m''), (''Ivan'', ''i'')]"

definition seed_description :: "string \<Rightarrow> string" where
  \<comment> \<open>The placeholder description of a seed session: a Cyrillic text in UTF-8 and
      the session's number.\<close>
  "seed_description n =
     map char_of [208, 162, 208, 181, 208, 186, 209, 129, 209, 130, 208, 190, 208, 178,
       208, 190, 208, 181, 32, 208, 190, 208, 191, 208, 184, 209, 129, 208, 176, 208, 189,
       208, 184, 208, 181, 32, 209, 129, 208, 181, 209, 129, 209, 129, 208, 184, 208, 184,
       32 :: nat] @ n"

definition admin_doc :: "env \<Rightarrow> int \<Rightarrow> user" where
  "admin_doc e now =
     \<lparr>userName = ''admin'', isAdmin = True, passwordHash = None,
      keyHash = hmacKeyHash e ''admin'', createdAt = now\<rparr>"

definition player_doc :: "env \<Rightarrow> int \<Rightarrow> string \<times> string \<Rightarrow> user" where
  \<comment> \<open>The document of a player with the given name and password.\<close>
  "player_doc e now p =
     \<lparr>userName = fst p, isAdmin = False, passwordHash = None,
      keyHash = hmacKeyHash e (snd p), createdAt = now\<rparr>"

definition seed_admin :: "env \<Rightarrow> int \<Rightarrow> store \<Rightarrow> store" where
  "seed_admin e now db =
     (case findOne (\<lambda>u. isAdmin u = True \<and> userName u = ''admin'') (users db) of
        None \<Rightarrow> db\<lparr>users := insertOne (admin_doc e now) (users db)\<rparr>
      | Some admin \<Rightarrow> db)"

definition seed_player :: "env \<Rightarrow> int \<Rightarrow> store \<Rightarrow> string \<times> string \<Rightarrow> store" where
  "seed_player e now db p =
     (case findOne (\<lambda>u. userName u = fst p) (users db) of
        None \<Rightarrow> db\<lparr>users := insertOne (player_doc e now p) (users db)\<rparr>
      | Some exists \<Rightarrow> db)"

definition seed_session_docs :: "int \<Rightarrow> int \<Rightarrow> int \<Rightarrow> session list" where
  \<comment> \<open>The two seed sessions, one and two days after \<open>now\<close>.\<close>
  "seed_session_docs now id1 id2 =
     [\<lparr>id' = of_int id1, startAt = now + 24 * 60 * 60 * 1000,
       description = seed_description ''1'', createdAt_s = now\<rparr>,
      \<lparr>id' = of_int id2, startAt = now + 2 * 24 * 60 * 60 * 1000,
       description = seed_description ''2'', createdAt_s = now\<rparr>]"

definition seed_attempt_docs :: "int \<Rightarrow> int \<Rightarrow> attempt list" where
  \<comment> \<open>The four seed attempts of the first seed session, which starts at \<open>s1Date\<close>.\<close>
  "seed_attempt_docs s1Date id1 =
     [\<lparr>sessionId = of_int id1, userName_a = ''Antuan'', rate = 98,
       createdAt_a = s1Date + 5 * 60 * 1000\<rparr>,
      \<lparr>sessionId = of_int id1, userName_a = ''Maria'', rate = 81,
       createdAt_a = s1Date + 10 * 60 * 1000\<rparr>,
      \<lparr>sessionId = of_int id1, userName_a = ''Ivan'', rate = 69,
       createdAt_a = s1Date + 15 * 60 * 1000\<rparr>,
      \<lparr>sessionId = of_int id1, userName_a = ''Artur_1'', rate = 78,
       createdAt_a = s1Date + 20 * 60 * 1000\<rparr>]"

definition seed_sessions :: "int \<Rightarrow> store \<Rightarrow> store" where
  "seed_sessions now db =
     (if countDocuments (sessions db) = 0 then
        (let s1Date = now + 24 * 60 * 60 * 1000;
             (id1, db1) = getNextSessionId db;
             (id2, db2) = getNextSessionId db1;
             db3 = db2\<lparr>sessions := insertMany (seed_session_docs now id1 id2) (sessions db2)\<rparr>
         in db3\<lparr>attempts := insertMany (seed_attempt_docs s1Date id1) (attempts db3)\<rparr>)
      else db)"

definition ensureSeedData :: "env \<Rightarrow> int \<Rightarrow> store \<Rightarrow> store" where
  "ensureSeedData e now db =
     seed_sessions now (foldl (seed_player e now) (seed_admin e now db) seedPlayers)"

section \<open>Tokens and the authentication middleware\<close>

text \<open>
  A signed token is modelled symbolically: the key it was signed with, and the claims
  \<open>sub\<close> and \<open>role\<close>. It verifies under a secret when it was signed with that secret;
  its expiry is not modelled. The \<open>authorization\<close> header of a request is given as
  \<open>token option\<close>: \<open>None\<close> when the header is absent or is not \<open>Bearer\<close> and a token.
\<close>

datatype token = JWT (signing_key: string) (sub: string) (role: string)

datatype req_user = ReqUser (user_name: string) (user_role: string)

datatype session_json = SessionJson rat string string string
  \<comment> \<open>\<open>id\<close>, \<open>startDate\<close>, \<open>startTime\<close>, \<open>description\<close>\<close>

datatype leaderboard_json = LeaderboardJson (rank: nat) (userName_l: string) (rate_l: rat)
  \<comment> \<open>\<open>rank\<close>, \<open>userName\<close>, \<open>rate\<close>\<close>

datatype attempt_json = AttemptJson rat string rat string
  \<comment> \<open>\<open>sessionId\<close>, \<open>userName\<close>, \<open>rate\<close>, \<open>dateTime\<close>; the field \<open>id\<close>, the
      database's own identifier as a string, is left out\<close>

datatype body =
    Error string
  | TokenBody token string string
  | SessionsBody "session_json list"
  | SessionBody session_json
  | LeaderboardBody "leaderboard_json list"
  | AttemptsBody "attempt_json list"
  | OkBody
  | NoBody

type_synonym response = "nat \<times> body"

definition signToken :: "env \<Rightarrow> string \<Rightarrow> string \<Rightarrow> token option" where
  \<comment> \<open>\<open>None\<close>: the error thrown when \<open>JWT_SECRET\<close> is unset or empty.\<close>
  "signToken e s r =
     (case JWT_SECRET e of
        None \<Rightarrow> None
      | Some k \<Rightarrow> if k = [] then None else Some (JWT k s r))"

definition jwt_verify :: "env \<Rightarrow> token \<Rightarrow> token option" where
  \<comment> \<open>\<open>None\<close>: verification throws (no secret, or a signature of another key).\<close>
  "jwt_verify e t =
     (case JWT_SECRET e of
        None \<Rightarrow> None
      | Some k \<Rightarrow> if k \<noteq> [] \<and> signing_key t = k then Some t else None)"

definition authMiddleware :: "env \<Rightarrow> string option \<Rightarrow> token option \<Rightarrow> response + req_user" where
  \<comment> \<open>\<open>Inl\<close>: the response the middleware sends; \<open>Inr\<close>: \<open>req.user\<close>, and the handler
      runs.\<close>
  "authMiddleware e requiredRole header =
     (case header of
        None \<Rightarrow> Inl (401, Error ''unauthorized'')
      | Some t \<Rightarrow>
          (case jwt_verify e t of
             None \<Rightarrow> Inl (401, Error ''unauthorized'')
           | Some payload \<Rightarrow>
               (case requiredRole of
                  None \<Rightarrow> Inr (ReqUser (sub payload) (role payload))
                | Some r \<Rightarrow>
                    if role payload \<noteq> r then Inl (403, Error ''forbidden'')
                    else Inr (ReqUser (sub payload) (role payload)))))"

section \<open>The request handlers\<close>

text \<open>
  A handler takes the environment, the clock where it reads it, the \<open>authorization\<close>
  header, its path and body parameters and the store, and gives the response and,
  where it writes, the store after it. A string field of a body is \<open>string option\<close>,
  \<open>None\<close> when the field (or the whole body) is missing; values of other JSON types
  in such a field are not modelled. Failures of the database itself are not modelled:
  the only exceptions are those the handlers' own calls raise.
\<close>

definition falsy :: "string option \<Rightarrow> bool" where
  \<comment> \<open>\<open>!x\<close> for a string or \<open>undefined\<close>.\<close>
  "falsy x = (case x of None \<Rightarrow> True | Some s \<Rightarrow> s = [])"

definition player_register :: "env \<Rightarrow> int \<Rightarrow> string option \<Rightarrow> string option \<Rightarrow> store \<Rightarrow> response \<times> store" where
  \<comment> \<open>\<open>POST /api/auth/player-register\<close>\<close>
  "player_register e now userName_b password db =
     (if falsy userName_b \<or> falsy password then ((400, Error ''missing_fields''), db)
      else let u = the userName_b; p = the password
           in case findOne (\<lambda>x. userName x = u) (users db) of
                Some existing \<Rightarrow> ((409, Error ''username_taken''), db)
              | None \<Rightarrow>
                  (let db' = db\<lparr>users := insertOne (player_doc e now (u, p)) (users db)\<rparr>
                   in case signToken e u ''player'' of
                        None \<Rightarrow> ((500, Error ''server_error''), db')
                      | Some t \<Rightarrow> ((201, TokenBody t u ''player''), db')))"

definition session_view :: "session \<Rightarrow> session_json option" where
  \<comment> \<open>One element of the sessions listing; \<open>None\<close> when \<open>toISOString\<close> throws.\<close>
  "session_view d =
     (case toISOString (startAt d) of
        None \<Rightarrow> None
      | Some str \<Rightarrow> Some (SessionJson (id' d) (slice 0 10 str) (slice 11 16 str) (description d)))"

definition sort_startAt_desc :: "session list \<Rightarrow> session list" where
  \<comment> \<open>\<open>.sort({ startAt: -1 })\<close>; the database leaves the order among equal keys
      open, here it is the insertion order.\<close>
  "sort_startAt_desc docs = sort_key (\<lambda>d. - startAt d) docs"

definition get_sessions :: "env \<Rightarrow> token option \<Rightarrow> store \<Rightarrow> response" where
  \<comment> \<open>\<open>GET /api/sessions\<close>\<close>
  "get_sessions e header db =
     (case authMiddleware e None header of
        Inl r \<Rightarrow> r
      | Inr u \<Rightarrow>
          (case those (map session_view (sort_startAt_desc (sessions db))) of
             None \<Rightarrow> (500, Error ''server_error'')
           | Some vs \<Rightarrow> (200, SessionsBody vs)))"

definition post_session :: "env \<Rightarrow> int \<Rightarrow> token option \<Rightarrow> string option \<Rightarrow> string option \<Rightarrow> string option \<Rightarrow> store \<Rightarrow> response \<times> store" where
  \<comment> \<open>\<open>POST /api/sessions\<close>\<close>
  "post_session e now header startDate startTime description_b db =
     (case authMiddleware e (Some ''admin'') header of
        Inl r \<Rightarrow> (r, db)
      | Inr u \<Rightarrow>
          if falsy startDate \<or> falsy startTime then ((400, Error ''invalid_datetime''), db)
          else (case Date_parse (the startDate @ ''T'' @ the startTime @ '':00Z'') of
                  None \<Rightarrow> ((400, Error ''invalid_datetime''), db)
                | Some ts \<Rightarrow>
                    (let (i, db1) = getNextSessionId db;
                         doc = \<lparr>id' = of_int i, startAt = ts,
                                description = (case description_b of None \<Rightarrow> [] | Some d \<Rightarrow> d),
                                createdAt_s = now\<rparr>
                     in ((201, SessionBody (SessionJson (of_int i) (the startDate) (the startTime)
                                              (description doc))),
                         db1\<lparr>sessions := insertOne doc (sessions db1)\<rparr>))))"

definition delete_session :: "env \<Rightarrow> token option \<Rightarrow> string \<Rightarrow> store \<Rightarrow> response \<times> store" where
  \<comment> \<open>\<open>DELETE /api/sessions/:id\<close>\<close>
  "delete_session e header id_param db =
     (case authMiddleware e (Some ''admin'') header of
        Inl r \<Rightarrow> (r, db)
      | Inr u \<Rightarrow>
          (case Number (JStr id_param) of
             Fin i \<Rightarrow>
               ((204, NoBody),
                db\<lparr>sessions := deleteOne (\<lambda>s. id' s = i) (sessions db),
                   attempts := deleteMany (\<lambda>a. sessionId a = i) (attempts db)\<rparr>)
           | _ \<Rightarrow> ((400, Error ''invalid_id''), db)))"

subsection \<open>The leaderboard pipeline\<close>

fun group_add :: "(string \<times> rat) list \<Rightarrow> string \<Rightarrow> rat \<Rightarrow> (string \<times> rat) list" where
  \<comment> \<open>One document into the groups of \<open>$group\<close>, with the accumulator \<open>$max\<close>.\<close>
  "group_add [] u r = [(u, r)]"
| "group_add ((v, m) # g) u r =
     (if v = u then (v, max m r) # g else (v, m) # group_add g u r)"

definition match_stage :: "rat \<Rightarrow> attempt list \<Rightarrow> attempt list" where
  "match_stage i docs = filter (\<lambda>a. sessionId a = i) docs"

definition group_stage :: "attempt list \<Rightarrow> (string \<times> rat) list" where
  "group_stage docs = foldl (\<lambda>g a. group_add g (userName_a a) (rate a)) [] docs"

definition sort_stage :: "(string \<times> rat) list \<Rightarrow> (string \<times> rat) list" where
  \<comment> \<open>\<open>$sort: { rate: -1, _id: 1 }\<close>; strings compare by their bytes.\<close>
  "sort_stage g = sort_key (\<lambda>(u, r). (- r, u)) g"

definition aggregate :: "rat \<Rightarrow> attempt list \<Rightarrow> (string \<times> rat) list" where
  "aggregate i docs = sort_stage (group_stage (match_stage i docs))"

definition leaderboard_of :: "(string \<times> rat) list \<Rightarrow> leaderboard_json list" where
  "leaderboard_of docs = map (\<lambda>(idx, (u, r)). LeaderboardJson (idx + 1) u r) (enumerate 0 docs)"

definition get_leaderboard :: "env \<Rightarrow> token option \<Rightarrow> string \<Rightarrow> store \<Rightarrow> response" where
  \<comment> \<open>\<open>GET /api/sessions/:id/leaderboard\<close>\<close>
  "get_leaderboard e header id_param db =
     (case authMiddleware e None header of
        Inl r \<Rightarrow> r
      | Inr u \<Rightarrow>
          (case Number (JStr id_param) of
             Fin i \<Rightarrow> (200, LeaderboardBody (leaderboard_of (aggregate i (attempts db))))
           | _ \<Rightarrow> (400, Error ''invalid_id'')))"

subsection \<open>Attempts\<close>

text \<open>
  A query parameter as the query parser gives it: missing, a string, or something
  nested (an array or an object).
\<close>

datatype query_param = QMissing | QString string | QNested

definition attempt_view :: "attempt \<Rightarrow> attempt_json option" where
  "attempt_view d =
     (case toISOString (createdAt_a d) of
        None \<Rightarrow> None
      | Some str \<Rightarrow> Some (AttemptJson (sessionId d) (userName_a d) (rate d) str))"

definition sort_createdAt_desc :: "attempt list \<Rightarrow> attempt list" where
  \<comment> \<open>\<open>.sort({ createdAt: -1 })\<close>, equal keys in insertion order.\<close>
  "sort_createdAt_desc docs = sort_key (\<lambda>d. - createdAt_a d) docs"

definition get_attempts :: "env \<Rightarrow> token option \<Rightarrow> string \<Rightarrow> query_param \<Rightarrow> store \<Rightarrow> response" where
  \<comment> \<open>\<open>GET /api/sessions/:id/attempts?userName=...\<close>\<close>
  "get_attempts e header id_param userName_q db =
     (case authMiddleware e None header of
        Inl r \<Rightarrow> r
      | Inr authUser \<Rightarrow>
          (case Number (JStr id_param) of
             Fin i \<Rightarrow>
               (case userName_q of
                  QString un \<Rightarrow>
                    if un = [] then (400, Error ''missing_userName'')
                    else if user_role authUser \<noteq> ''admin'' \<and> user_name authUser \<noteq> un
                    then (403, Error ''forbidden'')
                    else (case those (map attempt_view
                                   (sort_createdAt_desc
                                      (filter (\<lambda>a. sessionId a = i \<and> userName_a a = un) (attempts db)))) of
                            None \<Rightarrow> (500, Error ''server_error'')
                          | Some vs \<Rightarrow> (200, AttemptsBody vs))
                | _ \<Rightarrow> (400, Error ''missing_userName''))
           | _ \<Rightarrow> (400, Error ''invalid_id'')))"

definition post_attempt :: "env \<Rightarrow> int \<Rightarrow> token option \<Rightarrow> string \<Rightarrow> jsval \<Rightarrow> store \<Rightarrow> response \<times> store" where
  \<comment> \<open>\<open>POST /api/sessions/:id/attempts\<close>; \<open>rate_b\<close> is the field \<open>rate\<close> of the body.\<close>
  "post_attempt e now header id_param rate_b db =
     (case authMiddleware e (Some ''player'') header of
        Inl r \<Rightarrow> (r, db)
      | Inr u \<Rightarrow>
          (case Number (JStr id_param) of
             Fin i \<Rightarrow>
               (case Number rate_b of
                  Fin r \<Rightarrow>
                    if r < 1 \<or> r > 100 then ((400, Error ''invalid_rate''), db)
                    else ((201, OkBody),
                          db\<lparr>attempts := insertOne
                               \<lparr>sessionId = i, userName_a = user_name u, rate = r,
                                createdAt_a = now\<rparr> (attempts db)\<rparr>)
                | _ \<Rightarrow> ((400, Error ''invalid_rate''), db))
           | _ \<Rightarrow> ((400, Error ''invalid_id''), db)))"

section \<open>Notions used in the statements\<close>

text \<open>\<open>n\<close> calls of the sequence allocator one after the other: the values returned, in
  order, and the store after the last call.\<close>

fun getNextSessionId_times :: "nat \<Rightarrow> store \<Rightarrow> int list \<times> store" where
  "getNextSessionId_times 0 db = ([], db)"
| "getNextSessionId_times (Suc n) db =
     (let (i, db1) = getNextSessionId db;
          (js, db2) = getNextSessionId_times n db1
      in (i # js, db2))"

text \<open>The value of the counter, 0 while the counter document does not exist.\<close>

definition counter_value :: "store \<Rightarrow> int" where
  "counter_value db = (case counters db of None \<Rightarrow> 0 | Some k \<Rightarrow> k)"

text \<open>
  The calendar fields of a time value as text, in UTC: the date as year, month and
  day, the time as hours and minutes.
\<close>

definition date_string :: "int \<Rightarrow> string" where
  "date_string t =
     pad 4 (YearFromTime t) @ ''-'' @ pad 2 (MonthFromTime t + 1) @ ''-'' @ pad 2 (DateFromTime t)"

definition time_string :: "int \<Rightarrow> string" where
  "time_string t = pad 2 (HourFromTime t) @ '':'' @ pad 2 (MinFromTime t)"

text \<open>The shapes \<open>YYYY-MM-DD\<close> and \<open>HH:MM\<close>.\<close>

definition is_YYYY_MM_DD :: "string \<Rightarrow> bool" where
  "is_YYYY_MM_DD s =
     (case s of
        [y1, y2, y3, y4, h1, m1, m2, h2, d1, d2] \<Rightarrow>
          list_all (is_digit 10) [y1, y2, y3, y4, m1, m2, d1, d2] \<and> h1 = CHR ''-'' \<and> h2 = CHR ''-''
      | _ \<Rightarrow> False)"

definition is_HH_MM :: "string \<Rightarrow> bool" where
  "is_HH_MM s =
     (case s of
        [h1, h2, c, m1, m2] \<Rightarrow> list_all (is_digit 10) [h1, h2, m1, m2] \<and> c = CHR '':''
      | _ \<Rightarrow> False)"



text \<open>The session ids of a store are distinct integers that the counter has reached.\<close>

definition session_ids_ok :: "store \<Rightarrow> bool" where
  "session_ids_ok db =
     (distinct (map id' (sessions db))
      \<and> (\<forall>s \<in> set (sessions db).
            of_int \<lfloor>id' s\<rfloor> = id' s \<and> \<lfloor>id' s\<rfloor> \<le> counter_value db))"

section \<open>Sample data\<close>

text \<open>
  A configured environment (the hash is a stand-in that keeps key and message apart),
  an empty store, and the tokens of a player and of an administrator signed under the
  environment's secret. They are the concrete inputs of the examples below.
\<close>

definition env0 :: env where
  "env0 = \<lparr>JWT_SECRET = Some ''k'', hmac_sha256_hex = (\<lambda>k m. k @ '':'' @ m)\<rparr>"


definition store0 :: store where
  "store0 = \<lparr>users = [], sessions = [], attempts = [], counters = None\<rparr>"

definition bob :: token where
  "bob = JWT ''k'' ''bob'' ''player''"

definition root :: token where
  "root = JWT ''k'' ''root'' ''admin''"

definition mk_attempt :: "rat \<Rightarrow> string \<Rightarrow> rat \<Rightarrow> int \<Rightarrow> attempt" where
  "mk_attempt i u r t = \<lparr>sessionId = i, userName_a = u, rate = r, createdAt_a = t\<rparr>"

definition mk_session :: "rat \<Rightarrow> int \<Rightarrow> session" where
  "mk_session i t = \<lparr>id' = i, startAt = t, description = [], createdAt_s = 0\<rparr>"

definition store1 :: store where
  \<comment> \<open>Two sessions, 5 and 6, with attempts by \<open>A\<close>, \<open>B\<close> and \<open>C\<close> in session 5 and one
      attempt in session 6.\<close>
  "store1 = \<lparr>users = [],
             sessions = [mk_session 5 1704103200000, mk_session 6 1704189600000],
             attempts = [mk_attempt 5 ''A'' 90 10, mk_attempt 5 ''A'' 70 20, mk_attempt 5 ''B'' 90 30,
                         mk_attempt 6 ''A'' 100 40, mk_attempt 5 ''C'' 50 50],
             counters = Some 6\<rparr>"

section \<open>Evaluation lemmas\<close>


lemma auth_any_bob:
  "authMiddleware env0 None (Some bob) = Inr (ReqUser ''bob'' ''player'')"
  by (simp add: authMiddleware_def jwt_verify_def env0_def bob_def)

lemma auth_admin_root:
  "authMiddleware env0 (Some ''admin'') (Some root) = Inr (ReqUser ''root'' ''admin'')"
  by (simp add: authMiddleware_def jwt_verify_def env0_def root_def)

lemma auth_any_root:
  "authMiddleware env0 None (Some root) = Inr (ReqUser ''root'' ''admin'')"
  by (simp add: authMiddleware_def jwt_verify_def env0_def root_def)




lemma Number_str_5: "Number (JStr ''5'') = Fin 5"
  by code_simp

lemma Number_str_99: "Number (JStr ''99'') = Fin 99"
  by code_simp





lemma those_map_Some:
  "(\<And>x. x \<in> set xs \<Longrightarrow> f x = Some (g x)) \<Longrightarrow> those (map f xs) = Some (map g xs)"
  by (induction xs) auto

lemma toISOString_Some: "\<bar>t\<bar> \<le> maxTime \<Longrightarrow> toISOString t = Some (the (toISOString t))"
  by (simp add: toISOString_def)


lemma Date_parse_expanded_year: "Date_parse ''+010000-01-01T00:00:00Z'' = Some 253402300800000"
  by code_simp


lemma toISOString_small:
  "toISOString 10 = Some ''1970-01-01T00:00:00.010Z''"
  "toISOString 20 = Some ''1970-01-01T00:00:00.020Z''"
  by code_simp+


lemma toISOString_10000: "toISOString 253402300800000 = Some ''+010000-01-01T00:00:00.000Z''"
  by code_simp

lemma YearFromTime_2024: "YearFromTime 1704103200000 = 2024" "YearFromTime 1704189600000 = 2024"
  by code_simp+

lemma strings_2024:
  "date_string 1704103200000 = ''2024-01-01''" "time_string 1704103200000 = ''10:00''"
  "date_string 1704189600000 = ''2024-01-02''" "time_string 1704189600000 = ''10:00''"
  by code_simp+




lemma not_shapes:
  "\<not> is_YYYY_MM_DD ''2024''" "\<not> is_YYYY_MM_DD ''+010000-01''" "\<not> is_HH_MM ''01T00''"
  by code_simp+


section \<open>Facts about the store operations\<close>

lemma findOne_Some_iff: "(\<exists>x. findOne P xs = Some x) \<longleftrightarrow> (\<exists>x \<in> set xs. P x)"
proof (cases "List.find P xs")
  case None
  then show ?thesis
    by (simp add: findOne_def find_None_iff)
next
  case (Some a)
  then show ?thesis
    by (auto simp: findOne_def find_Some_iff)
qed

lemma findOne_None_iff: "findOne P xs = None \<longleftrightarrow> (\<forall>x \<in> set xs. \<not> P x)"
  by (auto simp: findOne_def find_None_iff)

lemma getNextSessionId_eq:
  "getNextSessionId db = (counter_value db + 1, db\<lparr>counters := Some (counter_value db + 1)\<rparr>)"
  by (simp add: getNextSessionId_def findOneAndUpdate_inc_def counter_value_def Let_def split: option.split)

section \<open>C1: validation of the rate\<close>




section \<open>C2: the leaderboard\<close>

subsection \<open>The group stage\<close>

lemma map_fst_group_add:
  "map fst (group_add g u r) = (if u \<in> fst ` set g then map fst g else map fst g @ [u])"
  by (induction g u r rule: group_add.induct) auto

lemma map_of_group_add:
  "map_of (group_add g u r) =
     (map_of g)(u \<mapsto> (case map_of g u of None \<Rightarrow> r | Some m \<Rightarrow> max m r))"
  by (induction g u r rule: group_add.induct) (auto simp: fun_eq_iff)

lemma group_stage_snoc:
  "group_stage (docs @ [a]) = group_add (group_stage docs) (userName_a a) (rate a)"
  by (simp add: group_stage_def)

lemma names_group_stage: "set (map fst (group_stage docs)) = userName_a ` set docs"
proof (induction docs rule: rev_induct)
  case Nil
  show ?case by (simp add: group_stage_def)
next
  case (snoc a docs)
  then show ?case
    by (auto simp: group_stage_snoc map_fst_group_add)
qed

lemma distinct_group_stage: "distinct (map fst (group_stage docs))"
proof (induction docs rule: rev_induct)
  case Nil
  show ?case by (simp add: group_stage_def)
next
  case (snoc a docs)
  then show ?case
    by (auto simp: group_stage_snoc map_fst_group_add)
qed

lemma map_of_group_stage:
  "map_of (group_stage docs) u =
     (if u \<in> userName_a ` set docs
      then Some (Max (rate ` {a \<in> set docs. userName_a a = u})) else None)"
proof (induction docs rule: rev_induct)
  case Nil
  show ?case by (simp add: group_stage_def)
next
  case (snoc a docs)
  show ?case
  proof (cases "userName_a a = u")
    case False
    then have "{b \<in> set (docs @ [a]). userName_a b = u} = {b \<in> set docs. userName_a b = u}"
      by auto
    with False snoc show ?thesis
      by (auto simp: group_stage_snoc map_of_group_add)
  next
    case True
    have ins: "rate ` {b \<in> set (docs @ [a]). userName_a b = u} =
        insert (rate a) (rate ` {b \<in> set docs. userName_a b = u})"
      using True by auto
    show ?thesis
    proof (cases "u \<in> userName_a ` set docs")
      case False
      then have "{b \<in> set docs. userName_a b = u} = {}"
        by auto
      with True False snoc ins show ?thesis
        by (simp add: group_stage_snoc map_of_group_add)
    next
      case seen: True
      then have ne: "rate ` {b \<in> set docs. userName_a b = u} \<noteq> {}"
        by auto
      have fin: "finite (rate ` {b \<in> set docs. userName_a b = u})"
        by simp
      have "Max (insert (rate a) (rate ` {b \<in> set docs. userName_a b = u})) =
          max (rate a) (Max (rate ` {b \<in> set docs. userName_a b = u}))"
        using fin ne by (rule Max_insert)
      with True seen snoc ins show ?thesis
        by (simp add: group_stage_snoc map_of_group_add max.commute)
    qed
  qed
qed

subsection \<open>The sort stage and the ranks\<close>

lemma mset_sort_stage: "mset (sort_stage g) = mset g"
  by (simp add: sort_stage_def)

lemma distinct_names_sort_stage:
  "distinct (map fst (sort_stage g)) = distinct (map fst g)"
proof -
  have "mset (map fst (sort_stage g)) = mset (map fst g)"
    by (simp add: mset_sort_stage)
  then show ?thesis
    by (rule mset_eq_imp_distinct_iff)
qed

lemma sorted_sort_stage:
  assumes "distinct (map fst g)"
  shows "sorted_wrt (\<lambda>x y. snd y < snd x \<or> (snd x = snd y \<and> fst x < fst y)) (sort_stage g)"
proof -
  let ?k = "\<lambda>(u, r). (- r, u) :: rat \<times> string"
  have inj: "inj ?k"
    by (auto simp: inj_on_def)
  have "distinct (sort_stage g)"
    using assms by (simp add: sort_stage_def distinct_map)
  then have "distinct (map ?k (sort_stage g))"
    using inj by (auto simp: distinct_map inj_on_def)
  moreover have "sorted (map ?k (sort_stage g))"
    by (simp add: sort_stage_def)
  ultimately have "sorted_wrt (<) (map ?k (sort_stage g))"
    by (simp add: strict_sorted_iff)
  then have "sorted_wrt (\<lambda>x y. ?k x < ?k y) (sort_stage g)"
    by (simp add: sorted_wrt_map)
  then show ?thesis
    by (rule sorted_wrt_mono_rel [rotated]) (auto simp: less_prod_def split: prod.splits)
qed

lemma length_leaderboard_of: "length (leaderboard_of docs) = length docs"
  by (simp add: leaderboard_of_def)

lemma leaderboard_of_nth:
  "k < length docs \<Longrightarrow>
     leaderboard_of docs ! k = LeaderboardJson (k + 1) (fst (docs ! k)) (snd (docs ! k))"
  by (simp add: leaderboard_of_def nth_enumerate_eq case_prod_beta)

lemma rank_leaderboard_of: "map rank (leaderboard_of docs) = [1..<Suc (length docs)]"
  by (rule nth_equalityI) (simp_all add: length_leaderboard_of leaderboard_of_nth del: upt_Suc)

lemma names_leaderboard_of: "map userName_l (leaderboard_of docs) = map fst docs"
  by (rule nth_equalityI) (simp_all add: length_leaderboard_of leaderboard_of_nth)

lemma rates_leaderboard_of: "map rate_l (leaderboard_of docs) = map snd docs"
  by (rule nth_equalityI) (simp_all add: length_leaderboard_of leaderboard_of_nth)

lemma leaderboard_of_sorted:
  "sorted_wrt (\<lambda>x y. rate_l y < rate_l x \<or> (rate_l x = rate_l y \<and> userName_l x < userName_l y))
      (leaderboard_of docs)
   \<longleftrightarrow> sorted_wrt (\<lambda>x y. snd y < snd x \<or> (snd x = snd y \<and> fst x < fst y)) docs"
  by (simp add: sorted_wrt_iff_nth_less length_leaderboard_of leaderboard_of_nth)

lemma leaderboard_entry:
  assumes "x \<in> set (leaderboard_of docs)"
  shows "(userName_l x, rate_l x) \<in> set docs"
proof -
  from assms obtain k where "k < length (leaderboard_of docs)" and "x = leaderboard_of docs ! k"
    by (auto simp: in_set_conv_nth)
  then show ?thesis
    by (simp add: length_leaderboard_of leaderboard_of_nth)
qed


lemma aggregate_example:
  "aggregate i
     [\<lparr>sessionId = i, userName_a = ''A'', rate = 90, createdAt_a = t1\<rparr>,
      \<lparr>sessionId = i, userName_a = ''A'', rate = 70, createdAt_a = t2\<rparr>,
      \<lparr>sessionId = i, userName_a = ''B'', rate = 90, createdAt_a = t3\<rparr>,
      \<lparr>sessionId = i, userName_a = ''C'', rate = 50, createdAt_a = t4\<rparr>]
   = [(''A'', 90), (''B'', 90), (''C'', 50)]"
  by (simp add: aggregate_def match_stage_def group_stage_def sort_stage_def)

text \<open>
  C2. For a request that the middleware passes and a finite session id \<open>i\<close>, the answer
  is 200 with a leaderboard \<open>lb\<close> such that: the ranks are 1 to N in order; every user
  with an attempt in session \<open>i\<close> appears exactly once and no one else does; the rate
  of an entry is the maximum of that user's rates in the session; the entries are in
  descending order of rate, and those of equal rate in ascending order of \<open>userName\<close>.
  For the attempts (A, 90), (A, 70), (B, 90), (C, 50) of one session the leaderboard is
  (1, A, 90), (2, B, 90), (3, C, 50).
\<close>

theorem leaderboard_ranking:
  assumes auth: "authMiddleware e None header = Inr u"
    and ident: "Number (JStr id_param) = Fin i"
  shows "(\<exists>lb. get_leaderboard e header id_param db = (200, LeaderboardBody lb)
            \<and> map rank lb = [1..<Suc (length lb)]
            \<and> distinct (map userName_l lb)
            \<and> set (map userName_l lb) = userName_a ` {a \<in> set (attempts db). sessionId a = i}
            \<and> (\<forall>x \<in> set lb.
                 rate_l x = Max (rate ` {a \<in> set (attempts db).
                                          sessionId a = i \<and> userName_a a = userName_l x}))
            \<and> sorted_wrt (\<lambda>x y. rate_l y < rate_l x
                                 \<or> (rate_l x = rate_l y \<and> userName_l x < userName_l y)) lb)
       \<and> get_leaderboard e header id_param
           (db\<lparr>attempts :=
                [\<lparr>sessionId = i, userName_a = ''A'', rate = 90, createdAt_a = t1\<rparr>,
                 \<lparr>sessionId = i, userName_a = ''A'', rate = 70, createdAt_a = t2\<rparr>,
                 \<lparr>sessionId = i, userName_a = ''B'', rate = 90, createdAt_a = t3\<rparr>,
                 \<lparr>sessionId = i, userName_a = ''C'', rate = 50, createdAt_a = t4\<rparr>]\<rparr>)
           = (200, LeaderboardBody
                [LeaderboardJson 1 ''A'' 90, LeaderboardJson 2 ''B'' 90, LeaderboardJson 3 ''C'' 50])"
proof -
  let ?m = "match_stage i (attempts db)"
  let ?g = "aggregate i (attempts db)"
  let ?lb = "leaderboard_of ?g"
  have resp: "get_leaderboard e header id_param db = (200, LeaderboardBody ?lb)"
    using auth ident by (simp add: get_leaderboard_def del: Number.simps(5))
  have len: "length ?lb = length ?g"
    by (rule length_leaderboard_of)
  have ranks: "map rank ?lb = [1..<Suc (length ?lb)]"
    by (simp only: rank_leaderboard_of len)
  have dist_g: "distinct (map fst ?g)"
    by (simp add: aggregate_def distinct_names_sort_stage distinct_group_stage)
  then have dist: "distinct (map userName_l ?lb)"
    by (simp add: names_leaderboard_of)
  have set_g: "set ?g = set (group_stage ?m)"
    by (simp add: aggregate_def sort_stage_def)
  have matched: "set ?m = {a \<in> set (attempts db). sessionId a = i}"
    by (simp add: match_stage_def)
  have "set (map fst ?g) = fst ` set (group_stage ?m)"
    by (simp add: set_g)
  also have "\<dots> = userName_a ` set ?m"
    using names_group_stage [of ?m] by simp
  finally have names: "set (map userName_l ?lb) = userName_a ` {a \<in> set (attempts db). sessionId a = i}"
    by (simp add: names_leaderboard_of matched)
  have best: "\<forall>x \<in> set ?lb. rate_l x = Max (rate ` {a \<in> set (attempts db).
                                          sessionId a = i \<and> userName_a a = userName_l x})"
  proof
    fix x assume "x \<in> set ?lb"
    then have "(userName_l x, rate_l x) \<in> set (group_stage ?m)"
      using leaderboard_entry [of x ?g] by (simp add: set_g)
    then have "map_of (group_stage ?m) (userName_l x) = Some (rate_l x)"
      using distinct_group_stage [of ?m] by simp
    then have "rate_l x = Max (rate ` {a \<in> set ?m. userName_a a = userName_l x})"
      by (simp add: map_of_group_stage split: if_splits)
    moreover have "{a \<in> set ?m. userName_a a = userName_l x} =
        {a \<in> set (attempts db). sessionId a = i \<and> userName_a a = userName_l x}"
      by (auto simp: matched)
    ultimately show "rate_l x = Max (rate ` {a \<in> set (attempts db).
                                          sessionId a = i \<and> userName_a a = userName_l x})"
      by simp
  qed
  have "sorted_wrt (\<lambda>x y. snd y < snd x \<or> (snd x = snd y \<and> fst x < fst y)) ?g"
    unfolding aggregate_def
    by (rule sorted_sort_stage) (rule distinct_group_stage)
  then have sorted: "sorted_wrt (\<lambda>x y. rate_l y < rate_l x
                                 \<or> (rate_l x = rate_l y \<and> userName_l x < userName_l y)) ?lb"
    by (simp add: leaderboard_of_sorted)
  have example: "get_leaderboard e header id_param
           (db\<lparr>attempts :=
                [\<lparr>sessionId = i, userName_a = ''A'', rate = 90, createdAt_a = t1\<rparr>,
                 \<lparr>sessionId = i, userName_a = ''A'', rate = 70, createdAt_a = t2\<rparr>,
                 \<lparr>sessionId = i, userName_a = ''B'', rate = 90, createdAt_a = t3\<rparr>,
                 \<lparr>sessionId = i, userName_a = ''C'', rate = 50, createdAt_a = t4\<rparr>]\<rparr>)
           = (200, LeaderboardBody
                [LeaderboardJson 1 ''A'' 90, LeaderboardJson 2 ''B'' 90, LeaderboardJson 3 ''C'' 50])"
    using auth ident
    by (simp add: get_leaderboard_def aggregate_example leaderboard_of_def enumerate_eq_zip
          upt_conv_Cons del: Number.simps(5))
  from resp ranks dist names best sorted example show ?thesis
    by blast
qed

text \<open>
  The theorem at a concrete store: session 5 with the attempts of the example, stored
  in another order among the attempts of session 6.
\<close>

theorem leaderboard_ranking_witness:
  "authMiddleware env0 None (Some bob) = Inr (ReqUser ''bob'' ''player'')
   \<and> Number (JStr ''5'') = Fin 5
   \<and> get_leaderboard env0 (Some bob) ''5'' store1 =
       (200, LeaderboardBody
          [LeaderboardJson 1 ''A'' 90, LeaderboardJson 2 ''B'' 90, LeaderboardJson 3 ''C'' 50])"
proof -
  have "get_leaderboard env0 (Some bob) ''5'' store1 =
       (200, LeaderboardBody
          [LeaderboardJson 1 ''A'' 90, LeaderboardJson 2 ''B'' 90, LeaderboardJson 3 ''C'' 50])"
    by (simp add: get_leaderboard_def auth_any_bob Number_str_5 store1_def mk_attempt_def
          aggregate_def match_stage_def group_stage_def sort_stage_def leaderboard_of_def
          enumerate_eq_zip upt_conv_Cons del: Number.simps(5))
  then show ?thesis
    using auth_any_bob Number_str_5
      leaderboard_ranking [OF auth_any_bob Number_str_5, of store1 0 0 0 0]
    by simp
qed

section \<open>C3: the sequence allocator\<close>

lemma getNextSessionId_times_eq:
  "getNextSessionId_times n db =
     (map (\<lambda>j. counter_value db + 1 + int j) [0..<n],
      if n = 0 then db else db\<lparr>counters := Some (counter_value db + int n)\<rparr>)"
proof (induction n arbitrary: db)
  case 0
  show ?case by simp
next
  case (Suc n)
  have shift: "map (\<lambda>j. counter_value db + 1 + int j) [0..<Suc n] =
      (counter_value db + 1) # map (\<lambda>j. counter_value db + 1 + 1 + int j) [0..<n]"
    by (simp add: upt_conv_Cons map_Suc_upt [symmetric] del: upt_Suc)
  show ?case
    unfolding shift
    by (simp add: getNextSessionId_eq Suc.IH counter_value_def)
qed

text \<open>
  C3. A call returns the counter's value after the increment and stores it; on a store
  without the counter document it returns 1 and creates the document with \<open>seq = 1\<close>.
  \<open>n\<close> calls in sequence from the counter value \<open>k\<close> return \<open>k + 1, ..., k + n\<close> in this
  order: strictly increasing, without duplicates, exactly the set \<open>{k + 1 .. k + n}\<close>.
  No other collection changes.
\<close>

theorem getNextSessionId_sequence:
  "fst (getNextSessionId db) = counter_value db + 1
   \<and> counters (snd (getNextSessionId db)) = Some (counter_value db + 1)
   \<and> getNextSessionId (db\<lparr>counters := None\<rparr>) = (1, db\<lparr>counters := Some 1\<rparr>)
   \<and> fst (getNextSessionId_times n db) = map (\<lambda>j. counter_value db + 1 + int j) [0..<n]
   \<and> set (fst (getNextSessionId_times n db)) = {counter_value db + 1 .. counter_value db + int n}
   \<and> sorted_wrt (<) (fst (getNextSessionId_times n db))
   \<and> distinct (fst (getNextSessionId_times n db))
   \<and> length (fst (getNextSessionId_times n db)) = n
   \<and> counter_value (snd (getNextSessionId_times n db)) = counter_value db + int n
   \<and> users (snd (getNextSessionId_times n db)) = users db
   \<and> sessions (snd (getNextSessionId_times n db)) = sessions db
   \<and> attempts (snd (getNextSessionId_times n db)) = attempts db"
proof -
  let ?k = "counter_value db"
  have img: "set (map (\<lambda>j. ?k + 1 + int j) [0..<n]) = {?k + 1 .. ?k + int n}"
  proof (rule set_eqI)
    fix x
    show "x \<in> set (map (\<lambda>j. ?k + 1 + int j) [0..<n]) \<longleftrightarrow> x \<in> {?k + 1 .. ?k + int n}"
    proof
      assume "x \<in> set (map (\<lambda>j. ?k + 1 + int j) [0..<n])"
      then show "x \<in> {?k + 1 .. ?k + int n}" by auto
    next
      assume x: "x \<in> {?k + 1 .. ?k + int n}"
      then have "nat (x - ?k - 1) < n" and "x = ?k + 1 + int (nat (x - ?k - 1))"
        by auto
      then show "x \<in> set (map (\<lambda>j. ?k + 1 + int j) [0..<n])"
        by (metis (no_types, lifting) atLeast0LessThan image_eqI lessThan_iff set_map set_upt)
    qed
  qed
  have srt: "sorted_wrt (<) (map (\<lambda>j. ?k + 1 + int j) [0..<n])"
    by (simp add: sorted_wrt_map sorted_wrt_upt [unfolded sorted_wrt_iff_nth_less] sorted_wrt_iff_nth_less)
  have dst: "distinct (map (\<lambda>j. ?k + 1 + int j) [0..<n])"
    by (simp add: distinct_map inj_on_def)
  show ?thesis
    using img srt dst
    by (simp add: getNextSessionId_times_eq getNextSessionId_eq counter_value_def)
qed

text \<open>Three calls on the empty store return 1, 2, 3.\<close>

theorem getNextSessionId_sequence_witness:
  "fst (getNextSessionId_times 3 store0) = [1, 2, 3]
   \<and> counters (snd (getNextSessionId_times 3 store0)) = Some 3"
  using getNextSessionId_sequence [of store0 3]
  by (simp add: store0_def counter_value_def getNextSessionId_times_eq upt_conv_Cons)

section \<open>C4: deleting a session\<close>

lemma deleteOne_others:
  "filter (\<lambda>x. \<not> P x) (deleteOne P xs) = filter (\<lambda>x. \<not> P x) xs"
  by (induction xs) auto

lemma deleteOne_absent: "(\<And>x. x \<in> set xs \<Longrightarrow> \<not> P x) \<Longrightarrow> deleteOne P xs = xs"
  by (induction xs) auto

lemma deleteOne_distinct:
  "distinct (map f xs) \<Longrightarrow> deleteOne (\<lambda>x. f x = i) xs = filter (\<lambda>x. f x \<noteq> i) xs"
proof (induction xs)
  case Nil
  show ?case by simp
next
  case (Cons x xs)
  show ?case
  proof (cases "f x = i")
    case True
    with Cons.prems have "f x \<notin> f ` set xs"
      by simp
    with True have "\<And>y. y \<in> set xs \<Longrightarrow> f y \<noteq> i"
      by blast
    then have "filter (\<lambda>y. f y \<noteq> i) xs = xs"
      by (simp add: filter_id_conv)
    with True show ?thesis by simp
  next
    case False
    with Cons show ?thesis by simp
  qed
qed

lemma aggregate_no_match: "(\<And>a. a \<in> set docs \<Longrightarrow> sessionId a \<noteq> i) \<Longrightarrow> aggregate i docs = []"
proof -
  assume "\<And>a. a \<in> set docs \<Longrightarrow> sessionId a \<noteq> i"
  then have "match_stage i docs = []"
    by (simp add: match_stage_def filter_empty_conv)
  then show ?thesis
    by (simp add: aggregate_def group_stage_def sort_stage_def)
qed

text \<open>
  C4. For a request that the middleware passes as an administrator's and whose id is a
  finite number \<open>i\<close>, the handler answers 204 whatever the store holds. It removes all
  attempts whose \<open>sessionId\<close> is \<open>i\<close> and the first session whose id is \<open>i\<close>: every
  session and attempt with another id stays, in order; where the ids of the stored
  sessions are distinct, no session with id \<open>i\<close> remains; where no session has id
  \<open>i\<close>, the sessions are unchanged. Users and the counter are unchanged. A leaderboard
  query for the id on the store after the deletion gives the empty leaderboard.
\<close>

theorem delete_session_cascade:
  assumes auth: "authMiddleware e (Some ''admin'') header = Inr u"
    and ident: "Number (JStr id_param) = Fin i"
    and reader: "authMiddleware e None header' = Inr u'"
  shows "fst (delete_session e header id_param db) = (204, NoBody)
       \<and> attempts (snd (delete_session e header id_param db)) =
           filter (\<lambda>a. sessionId a \<noteq> i) (attempts db)
       \<and> (\<forall>a \<in> set (attempts (snd (delete_session e header id_param db))). sessionId a \<noteq> i)
       \<and> sessions (snd (delete_session e header id_param db)) =
           deleteOne (\<lambda>s. id' s = i) (sessions db)
       \<and> filter (\<lambda>s. id' s \<noteq> i) (sessions (snd (delete_session e header id_param db))) =
           filter (\<lambda>s. id' s \<noteq> i) (sessions db)
       \<and> (distinct (map id' (sessions db)) \<longrightarrow>
            sessions (snd (delete_session e header id_param db)) =
              filter (\<lambda>s. id' s \<noteq> i) (sessions db))
       \<and> ((\<forall>s \<in> set (sessions db). id' s \<noteq> i) \<longrightarrow>
            sessions (snd (delete_session e header id_param db)) = sessions db)
       \<and> users (snd (delete_session e header id_param db)) = users db
       \<and> counters (snd (delete_session e header id_param db)) = counters db
       \<and> get_leaderboard e header' id_param (snd (delete_session e header id_param db)) =
           (200, LeaderboardBody [])"
proof -
  have del: "delete_session e header id_param db =
      ((204, NoBody),
       db\<lparr>sessions := deleteOne (\<lambda>s. id' s = i) (sessions db),
          attempts := deleteMany (\<lambda>a. sessionId a = i) (attempts db)\<rparr>)"
    using auth ident by (simp add: delete_session_def del: Number.simps(5))
  have agg: "aggregate i (deleteMany (\<lambda>a. sessionId a = i) (attempts db)) = []"
    by (rule aggregate_no_match) (simp add: deleteMany_def)
  have lb: "get_leaderboard e header' id_param (snd (delete_session e header id_param db)) =
      (200, LeaderboardBody [])"
    using reader ident
    by (simp add: del get_leaderboard_def agg leaderboard_of_def enumerate_eq_zip
             del: Number.simps(5))
  have others: "filter (\<lambda>s. id' s \<noteq> i) (deleteOne (\<lambda>s. id' s = i) (sessions db)) =
      filter (\<lambda>s. id' s \<noteq> i) (sessions db)"
    using deleteOne_others [of "\<lambda>s. id' s = i" "sessions db"] by simp
  have absent: "(\<forall>s \<in> set (sessions db). id' s \<noteq> i) \<longrightarrow>
      deleteOne (\<lambda>s. id' s = i) (sessions db) = sessions db"
    by (simp add: deleteOne_absent)
  show ?thesis
    using lb others absent
    by (simp add: del deleteMany_def deleteOne_distinct)
qed

text \<open>
  The theorem at a concrete store: the administrator deletes session 5 of two
  sessions; then session 99, which does not exist.
\<close>

theorem delete_session_cascade_witness:
  "authMiddleware env0 (Some ''admin'') (Some root) = Inr (ReqUser ''root'' ''admin'')
   \<and> Number (JStr ''5'') = Fin 5
   \<and> authMiddleware env0 None (Some bob) = Inr (ReqUser ''bob'' ''player'')
   \<and> delete_session env0 (Some root) ''5'' store1 =
       ((204, NoBody),
        store1\<lparr>sessions := [mk_session 6 1704189600000],
               attempts := [mk_attempt 6 ''A'' 100 40]\<rparr>)
   \<and> get_leaderboard env0 (Some bob) ''5'' (snd (delete_session env0 (Some root) ''5'' store1)) =
       (200, LeaderboardBody [])
   \<and> delete_session env0 (Some root) ''99'' store1 = ((204, NoBody), store1)"
proof -
  have first: "delete_session env0 (Some root) ''5'' store1 =
       ((204, NoBody),
        store1\<lparr>sessions := [mk_session 6 1704189600000],
               attempts := [mk_attempt 6 ''A'' 100 40]\<rparr>)"
    and empty: "get_leaderboard env0 (Some bob) ''5''
        (snd (delete_session env0 (Some root) ''5'' store1)) = (200, LeaderboardBody [])"
    using delete_session_cascade [OF auth_admin_root Number_str_5 auth_any_bob, of store1]
    by (simp_all add: prod_eq_iff store1_def mk_session_def mk_attempt_def del: Number.simps(5))
  have absent: "delete_session env0 (Some root) ''99'' store1 = ((204, NoBody), store1)"
    using delete_session_cascade [OF auth_admin_root Number_str_99 auth_any_bob, of store1]
    by (simp add: prod_eq_iff store1_def mk_session_def mk_attempt_def del: Number.simps(5))
  from auth_admin_root Number_str_5 auth_any_bob first empty absent show ?thesis
    by (intro conjI)
qed

section \<open>C5: seeding\<close>

lemma seedPlayers_names:
  "distinct (map fst seedPlayers)" "''admin'' \<notin> fst ` set seedPlayers"
  by (simp_all add: seedPlayers_def)

lemma users_seed_admin:
  "users (seed_admin e now db) =
     users db @ (if \<exists>u \<in> set (users db). isAdmin u \<and> userName u = ''admin'' then []
                 else [admin_doc e now])"
proof (cases "findOne (\<lambda>u. isAdmin u = True \<and> userName u = ''admin'') (users db)")
  case None
  then have "\<not> (\<exists>u \<in> set (users db). isAdmin u \<and> userName u = ''admin'')"
    by (simp add: findOne_None_iff)
  with None show ?thesis
    by (simp add: seed_admin_def insertOne_def)
next
  case (Some a)
  then have "\<exists>u \<in> set (users db). isAdmin u = True \<and> userName u = ''admin''"
    using findOne_Some_iff [of "\<lambda>u. isAdmin u = True \<and> userName u = ''admin''" "users db"]
    by blast
  with Some show ?thesis
    by (auto simp: seed_admin_def)
qed

lemma seed_admin_rest:
  "sessions (seed_admin e now db) = sessions db"
  "attempts (seed_admin e now db) = attempts db"
  "counters (seed_admin e now db) = counters db"
  by (simp_all add: seed_admin_def split: option.split)

lemma users_seed_player:
  "users (seed_player e now db p) =
     users db @ (if fst p \<in> userName ` set (users db) then [] else [player_doc e now p])"
proof (cases "findOne (\<lambda>u. userName u = fst p) (users db)")
  case None
  then have "fst p \<notin> userName ` set (users db)"
    by (auto simp: findOne_None_iff)
  with None show ?thesis
    by (simp add: seed_player_def insertOne_def)
next
  case (Some a)
  then have "\<exists>u \<in> set (users db). userName u = fst p"
    using findOne_Some_iff [of "\<lambda>u. userName u = fst p" "users db"] by blast
  then have "fst p \<in> userName ` set (users db)"
    by (force simp: image_iff)
  with Some show ?thesis
    by (simp add: seed_player_def)
qed

lemma seed_player_rest:
  "sessions (seed_player e now db p) = sessions db"
  "attempts (seed_player e now db p) = attempts db"
  "counters (seed_player e now db p) = counters db"
  by (simp_all add: seed_player_def split: option.split)

lemma seed_players_rest:
  "sessions (foldl (seed_player e now) db ps) = sessions db
   \<and> attempts (foldl (seed_player e now) db ps) = attempts db
   \<and> counters (foldl (seed_player e now) db ps) = counters db"
  by (induction ps arbitrary: db) (simp_all add: seed_player_rest)

lemma users_seed_players:
  "distinct (map fst ps) \<Longrightarrow>
     users (foldl (seed_player e now) db ps) =
       users db @ map (player_doc e now) (filter (\<lambda>p. fst p \<notin> userName ` set (users db)) ps)"
proof (induction ps arbitrary: db)
  case Nil
  show ?case by simp
next
  case (Cons p ps)
  let ?db = "seed_player e now db p"
  have same: "filter (\<lambda>q. fst q \<notin> userName ` set (users ?db)) ps =
      filter (\<lambda>q. fst q \<notin> userName ` set (users db)) ps"
  proof (rule filter_cong [OF refl])
    fix q assume q: "q \<in> set ps"
    from Cons.prems have "fst p \<notin> fst ` set ps"
      by simp
    with q have "fst q \<noteq> fst p"
      by (force simp: image_iff)
    then show "(fst q \<notin> userName ` set (users ?db)) = (fst q \<notin> userName ` set (users db))"
      by (auto simp: users_seed_player player_doc_def)
  qed
  from Cons.prems have "distinct (map fst ps)"
    by simp
  then have "users (foldl (seed_player e now) ?db ps) =
      users ?db @ map (player_doc e now) (filter (\<lambda>q. fst q \<notin> userName ` set (users ?db)) ps)"
    by (rule Cons.IH)
  then have "users (foldl (seed_player e now) ?db ps) =
      users ?db @ map (player_doc e now) (filter (\<lambda>q. fst q \<notin> userName ` set (users db)) ps)"
    by (simp only: same)
  then show ?case
    by (simp add: users_seed_player)
qed

lemma seed_sessions_eq:
  "seed_sessions now db =
     (if sessions db = [] then
        db\<lparr>counters := Some (counter_value db + 2),
           sessions := seed_session_docs now (counter_value db + 1) (counter_value db + 2),
           attempts := attempts db @
              seed_attempt_docs (now + 24 * 60 * 60 * 1000) (counter_value db + 1)\<rparr>
      else db)"
  by (simp add: seed_sessions_def countDocuments_def getNextSessionId_eq insertMany_def
        counter_value_def add.commute)

lemma ensureSeedData_users:
  "users (ensureSeedData e now db) =
     users db
     @ (if \<exists>u \<in> set (users db). isAdmin u \<and> userName u = ''admin'' then []
        else [admin_doc e now])
     @ map (player_doc e now) (filter (\<lambda>p. fst p \<notin> userName ` set (users db)) seedPlayers)"
proof -
  let ?db = "seed_admin e now db"
  have same: "filter (\<lambda>p. fst p \<notin> userName ` set (users ?db)) seedPlayers =
      filter (\<lambda>p. fst p \<notin> userName ` set (users db)) seedPlayers"
  proof (rule filter_cong [OF refl])
    fix p assume "p \<in> set seedPlayers"
    with seedPlayers_names(2) have "fst p \<noteq> ''admin''"
      by (force simp: image_iff)
    then show "(fst p \<notin> userName ` set (users ?db)) = (fst p \<notin> userName ` set (users db))"
      by (auto simp: users_seed_admin admin_doc_def)
  qed
  have "users (ensureSeedData e now db) = users (foldl (seed_player e now) ?db seedPlayers)"
    by (simp add: ensureSeedData_def seed_sessions_eq)
  also have "\<dots> = users ?db @ map (player_doc e now)
      (filter (\<lambda>p. fst p \<notin> userName ` set (users ?db)) seedPlayers)"
    using seedPlayers_names(1) by (rule users_seed_players)
  also have "\<dots> = users ?db @ map (player_doc e now)
      (filter (\<lambda>p. fst p \<notin> userName ` set (users db)) seedPlayers)"
    by (simp only: same)
  finally show ?thesis
    by (simp add: users_seed_admin)
qed

lemma ensureSeedData_rest:
  "sessions (ensureSeedData e now db) =
     (if sessions db = []
      then seed_session_docs now (counter_value db + 1) (counter_value db + 2)
      else sessions db)"
  "attempts (ensureSeedData e now db) =
     (if sessions db = []
      then attempts db @ seed_attempt_docs (now + 24 * 60 * 60 * 1000) (counter_value db + 1)
      else attempts db)"
  "counters (ensureSeedData e now db) =
     (if sessions db = [] then Some (counter_value db + 2) else counters db)"
  by (simp_all add: ensureSeedData_def seed_sessions_eq seed_players_rest seed_admin_rest
        counter_value_def)

text \<open>A store on which seeding has nothing left to do.\<close>

lemma ensureSeedData_seeded:
  assumes admin: "\<exists>u \<in> set (users db). isAdmin u \<and> userName u = ''admin''"
    and players: "\<forall>p \<in> set seedPlayers. fst p \<in> userName ` set (users db)"
    and nonempty: "sessions db \<noteq> []"
  shows "ensureSeedData e now db = db"
proof -
  have "filter (\<lambda>p. fst p \<notin> userName ` set (users db)) seedPlayers = []"
    using players by (simp add: filter_empty_conv)
  with admin have "users (ensureSeedData e now db) = users db"
    by (simp add: ensureSeedData_users)
  with nonempty show ?thesis
    by (simp add: ensureSeedData_rest store.equality)
qed

lemma ensureSeedData_idem:
  "ensureSeedData e now' (ensureSeedData e now db) = ensureSeedData e now db"
proof (rule ensureSeedData_seeded)
  let ?db = "ensureSeedData e now db"
  show "\<exists>u \<in> set (users ?db). isAdmin u \<and> userName u = ''admin''"
    by (auto simp: ensureSeedData_users admin_doc_def)
  show "\<forall>p \<in> set seedPlayers. fst p \<in> userName ` set (users ?db)"
  proof
    fix p assume p: "p \<in> set seedPlayers"
    show "fst p \<in> userName ` set (users ?db)"
    proof (cases "fst p \<in> userName ` set (users db)")
      case True
      then show ?thesis
        by (auto simp: ensureSeedData_users)
    next
      case False
      with p have "player_doc e now p \<in> set (users ?db)"
        by (simp add: ensureSeedData_users)
      moreover have "userName (player_doc e now p) = fst p"
        by (simp add: player_doc_def)
      ultimately show ?thesis
        by (metis imageI)
    qed
  qed
  show "sessions ?db \<noteq> []"
    by (simp add: ensureSeedData_rest seed_session_docs_def)
qed

text \<open>
  C5, as the code has it. Running the seeding a second time, at whatever time, changes
  nothing. A run appends: the administrator's document when no user is both an
  administrator and named \<open>admin\<close>; each seed player's document when no user has that
  name; and, when there is no session, two sessions with the next two ids and four
  attempts of the first of them. With a session in the store, sessions, attempts and
  the counter stay as they are.
\<close>

theorem ensureSeedData_idempotent:
  "ensureSeedData e now' (ensureSeedData e now db) = ensureSeedData e now db
   \<and> users (ensureSeedData e now db) =
       users db
       @ (if \<exists>u \<in> set (users db). isAdmin u \<and> userName u = ''admin'' then []
          else [admin_doc e now])
       @ map (player_doc e now) (filter (\<lambda>p. fst p \<notin> userName ` set (users db)) seedPlayers)
   \<and> sessions (ensureSeedData e now db) =
       (if sessions db = []
        then seed_session_docs now (counter_value db + 1) (counter_value db + 2)
        else sessions db)
   \<and> attempts (ensureSeedData e now db) =
       (if sessions db = []
        then attempts db @ seed_attempt_docs (now + 24 * 60 * 60 * 1000) (counter_value db + 1)
        else attempts db)
   \<and> counters (ensureSeedData e now db) =
       (if sessions db = [] then Some (counter_value db + 2) else counters db)
   \<and> length (seed_session_docs now (counter_value db + 1) (counter_value db + 2)) = 2
   \<and> length (seed_attempt_docs (now + 24 * 60 * 60 * 1000) (counter_value db + 1)) = 4"
  using ensureSeedData_idem [of e now' now db] ensureSeedData_users [of e now db]
    ensureSeedData_rest [of e now db]
  by (simp add: seed_session_docs_def seed_attempt_docs_def)

text \<open>
  The theorem on the empty store: the first run creates five users, two sessions and
  four attempts; the second run, a day later, leaves them.
\<close>

theorem ensureSeedData_idempotent_witness:
  "ensureSeedData env0 86400000 (ensureSeedData env0 0 store0) = ensureSeedData env0 0 store0
   \<and> map userName (users (ensureSeedData env0 0 store0)) =
       [''admin'', ''Artur_1'', ''Antuan'', ''Maria'', ''Ivan'']
   \<and> map id' (sessions (ensureSeedData env0 0 store0)) = [1, 2]
   \<and> map rate (attempts (ensureSeedData env0 0 store0)) = [98, 81, 69, 78]
   \<and> counters (ensureSeedData env0 0 store0) = Some 2"
  using ensureSeedData_idempotent [of env0 86400000 0 store0]
  by (simp add: store0_def counter_value_def seedPlayers_def admin_doc_def player_doc_def
        seed_session_docs_def seed_attempt_docs_def)

text \<open>
  C5 as stated fails on a store where a player is named \<open>admin\<close>: seeding creates the
  administrator although a user of that \<open>userName\<close> exists.
\<close>

theorem ensureSeedData_counterexample:
  "map userName (users (ensureSeedData env0 0
       (store0\<lparr>users := [player_doc env0 0 (''admin'', ''pw'')]\<rparr>))) =
     [''admin'', ''admin'', ''Artur_1'', ''Antuan'', ''Maria'', ''Ivan'']
   \<and> map isAdmin (users (ensureSeedData env0 0
       (store0\<lparr>users := [player_doc env0 0 (''admin'', ''pw'')]\<rparr>))) =
     [False, True, False, False, False, False]"
  by (simp add: ensureSeedData_users store0_def seedPlayers_def admin_doc_def player_doc_def)

section \<open>Session ids stay distinct\<close>

text \<open>
  The deletion removes every session of the id where the ids are distinct. They are,
  on every store that the handlers and the seeding build from the empty store: each
  of them keeps the session ids distinct integers up to the counter.
\<close>

lemma set_deleteOne: "set (deleteOne P xs) \<subseteq> set xs"
  by (induction xs) auto

lemma distinct_map_deleteOne: "distinct (map f xs) \<Longrightarrow> distinct (map f (deleteOne P xs))"
proof (induction xs)
  case Nil
  show ?case by simp
next
  case (Cons x xs)
  have "f ` set (deleteOne P xs) \<subseteq> f ` set xs"
    using set_deleteOne [of P xs] by blast
  with Cons show ?case
    by auto
qed

lemma counter_value_Some: "counters db = Some k \<Longrightarrow> counter_value db = k"
  by (simp add: counter_value_def)

lemma session_ids_ok_empty: "session_ids_ok store0"
  by (simp add: session_ids_ok_def store0_def)

lemma session_ids_ok_append:
  assumes ok: "session_ids_ok db"
  shows "session_ids_ok (db\<lparr>counters := Some (counter_value db + 1),
            sessions := sessions db @
              [\<lparr>id' = of_int (counter_value db + 1), startAt = ts, description = ds,
                createdAt_s = now\<rparr>]\<rparr>)"
proof -
  have "id' s \<noteq> of_int (counter_value db + 1)" if "s \<in> set (sessions db)" for s
  proof
    assume "id' s = of_int (counter_value db + 1)"
    then have "\<lfloor>id' s\<rfloor> = counter_value db + 1"
      by simp
    moreover from ok that have "\<lfloor>id' s\<rfloor> \<le> counter_value db"
      by (simp add: session_ids_ok_def)
    ultimately show False
      by simp
  qed
  then have "of_int (counter_value db + 1) \<notin> id' ` set (sessions db)"
    by (force simp: image_iff)
  moreover have "\<lfloor>id' s\<rfloor> \<le> counter_value db + 1" if "s \<in> set (sessions db)" for s
    using ok that by (simp add: session_ids_ok_def) (smt (verit))
  moreover have "counter_value (db\<lparr>counters := Some (counter_value db + 1),
            sessions := sessions db @
              [\<lparr>id' = of_int (counter_value db + 1), startAt = ts, description = ds,
                createdAt_s = now\<rparr>]\<rparr>) = counter_value db + 1"
    by (rule counter_value_Some) simp
  ultimately show ?thesis
    using ok by (auto simp: session_ids_ok_def simp del: of_int_add)
qed

lemma session_ids_ok_preserved:
  assumes ok: "session_ids_ok db"
  shows "session_ids_ok (snd (post_session e now header startDate startTime description_b db))"
    and "session_ids_ok (snd (delete_session e header id_param db))"
    and "session_ids_ok (snd (post_attempt e now header id_param rate_b db))"
    and "session_ids_ok (snd (player_register e now userName_b password db))"
    and "session_ids_ok (ensureSeedData e now db)"
proof -
  note appended = session_ids_ok_append [OF ok]
  show "session_ids_ok (snd (post_session e now header startDate startTime description_b db))"
    using ok appended
    by (simp add: post_session_def getNextSessionId_eq insertOne_def
          split: sum.split option.split)
  have "set (deleteOne P (sessions db)) \<subseteq> set (sessions db)" for P
    by (rule set_deleteOne)
  then have del: "session_ids_ok (db\<lparr>sessions := deleteOne P (sessions db), attempts := as\<rparr>)"
    for P as
    using ok by (auto simp: session_ids_ok_def counter_value_def distinct_map_deleteOne)
  show "session_ids_ok (snd (delete_session e header id_param db))"
    using ok del
    by (simp add: delete_session_def del: Number.simps(5) split: sum.split jsnum.split)
  have att: "session_ids_ok (db\<lparr>attempts := as\<rparr>)" for as
    using ok by (simp add: session_ids_ok_def counter_value_def)
  show "session_ids_ok (snd (post_attempt e now header id_param rate_b db))"
    using ok att
    by (simp add: post_attempt_def del: Number.simps(5) split: sum.split jsnum.split)
  have usr: "session_ids_ok (db\<lparr>users := us\<rparr>)" for us
    using ok by (simp add: session_ids_ok_def counter_value_def)
  show "session_ids_ok (snd (player_register e now userName_b password db))"
    using ok usr
    by (simp add: player_register_def Let_def split: option.split)
  have cv: "counter_value (ensureSeedData e now db) =
      (if sessions db = [] then counter_value db + 2 else counter_value db)"
    by (simp add: counter_value_def ensureSeedData_rest)
  show "session_ids_ok (ensureSeedData e now db)"
  proof (cases "sessions db = []")
    case True
    then show ?thesis
      by (simp add: session_ids_ok_def ensureSeedData_rest seed_session_docs_def cv
            del: of_int_add)
  next
    case False
    with ok show ?thesis
      by (simp add: session_ids_ok_def ensureSeedData_rest cv)
  qed
qed

section \<open>C6: who may list a user's attempts\<close>

text \<open>
  C6. Take a request that the middleware passes with subject \<open>s\<close> and role \<open>r\<close>, a
  finite session id and a non-empty \<open>userName\<close> query parameter \<open>un\<close>, on a store whose
  attempts carry valid dates. When the role is not \<open>admin\<close> (a player's, then) and the
  subject differs from \<open>un\<close>, the answer is 403 \<open>forbidden\<close>. When the subject is \<open>un\<close>,
  or the role is \<open>admin\<close> whatever \<open>un\<close> is, the answer is 200 with that user's
  attempts for the session, newest first.
\<close>

theorem get_attempts_access_control:
  assumes auth: "authMiddleware e None header = Inr (ReqUser s r)"
    and ident: "Number (JStr id_param) = Fin i"
    and name: "un \<noteq> []"
    and dates: "\<forall>a \<in> set (attempts db). \<bar>createdAt_a a\<bar> \<le> maxTime"
  shows "(r \<noteq> ''admin'' \<and> s \<noteq> un \<longrightarrow>
            get_attempts e header id_param (QString un) db = (403, Error ''forbidden''))
       \<and> (r = ''player'' \<and> s \<noteq> un \<longrightarrow>
            get_attempts e header id_param (QString un) db = (403, Error ''forbidden''))
       \<and> (s = un \<or> r = ''admin'' \<longrightarrow>
            get_attempts e header id_param (QString un) db =
              (200, AttemptsBody
                 (map (\<lambda>a. AttemptJson (sessionId a) (userName_a a) (rate a)
                              (the (toISOString (createdAt_a a))))
                    (sort_createdAt_desc
                       (filter (\<lambda>a. sessionId a = i \<and> userName_a a = un) (attempts db))))))"
proof -
  let ?docs = "sort_createdAt_desc (filter (\<lambda>a. sessionId a = i \<and> userName_a a = un) (attempts db))"
  let ?g = "\<lambda>a. AttemptJson (sessionId a) (userName_a a) (rate a) (the (toISOString (createdAt_a a)))"
  have "\<And>a. a \<in> set ?docs \<Longrightarrow> attempt_view a = Some (?g a)"
  proof -
    fix a assume "a \<in> set ?docs"
    then have "a \<in> set (attempts db)"
      by (simp add: sort_createdAt_desc_def)
    with dates have "\<bar>createdAt_a a\<bar> \<le> maxTime" by blast
    then obtain str where "toISOString (createdAt_a a) = Some str"
      using toISOString_Some by blast
    then show "attempt_view a = Some (?g a)"
      by (simp add: attempt_view_def)
  qed
  then have view: "those (map attempt_view ?docs) = Some (map ?g ?docs)"
    by (rule those_map_Some)
  show ?thesis
    using auth ident name view
    by (simp add: get_attempts_def del: Number.simps(5))
qed

text \<open>
  The theorem at concrete requests on a store with attempts of \<open>A\<close>: the player \<open>bob\<close>
  asks for the attempts of \<open>A\<close> (403) and for their own (200, none), the administrator
  asks for those of \<open>A\<close> (200).
\<close>

theorem get_attempts_access_control_witness:
  "authMiddleware env0 None (Some bob) = Inr (ReqUser ''bob'' ''player'')
   \<and> authMiddleware env0 None (Some root) = Inr (ReqUser ''root'' ''admin'')
   \<and> Number (JStr ''5'') = Fin 5
   \<and> get_attempts env0 (Some bob) ''5'' (QString ''A'') store1 = (403, Error ''forbidden'')
   \<and> get_attempts env0 (Some bob) ''5'' (QString ''bob'') store1 = (200, AttemptsBody [])
   \<and> get_attempts env0 (Some root) ''5'' (QString ''A'') store1 =
       (200, AttemptsBody
          [AttemptJson 5 ''A'' 70 ''1970-01-01T00:00:00.020Z'',
           AttemptJson 5 ''A'' 90 ''1970-01-01T00:00:00.010Z''])"
proof -
  have dates: "\<forall>a \<in> set (attempts store1). \<bar>createdAt_a a\<bar> \<le> maxTime"
    by (simp add: store1_def mk_attempt_def maxTime_def)
  have A: "''A'' \<noteq> []" and B: "''bob'' \<noteq> []"
    by simp_all
  show ?thesis
    using auth_any_bob auth_any_root Number_str_5
      get_attempts_access_control [OF auth_any_bob Number_str_5 A dates]
      get_attempts_access_control [OF auth_any_bob Number_str_5 B dates]
      get_attempts_access_control [OF auth_any_root Number_str_5 A dates]
    by (simp add: store1_def mk_attempt_def sort_createdAt_desc_def toISOString_small
          del: Number.simps(5))
qed

section \<open>Facts about dates\<close>

subsection \<open>Years\<close>

declare year_down.simps [simp del]

lemma div_succ:
  fixes a n :: int
  assumes "0 < n"
  shows "(a + 1) div n = a div n + (if (a + 1) mod n = 0 then 1 else 0)"
proof (cases "a mod n + 1 = n")
  case True
  have "a + 1 = n * (a div n) + (a mod n + 1)"
    by simp
  also have "\<dots> = n * (a div n + 1) + 0"
    using True by (simp add: algebra_simps)
  finally have eq: "a + 1 = n * (a div n + 1) + 0" .
  have "(a + 1) div n = a div n + 1"
    by (rule int_div_pos_eq [OF eq]) (use assms in simp_all)
  moreover have "(a + 1) mod n = 0"
    by (rule int_mod_pos_eq [OF eq]) (use assms in simp_all)
  ultimately show ?thesis by simp
next
  case False
  have lt: "a mod n + 1 < n" and ge: "0 \<le> a mod n + 1"
    using False assms pos_mod_bound [of n a] pos_mod_sign [of n a] by linarith+
  have eq: "a + 1 = n * (a div n) + (a mod n + 1)"
    by simp
  have "(a + 1) div n = a div n"
    using eq ge lt by (rule int_div_pos_eq)
  moreover have "(a + 1) mod n = a mod n + 1"
    using eq ge lt by (rule int_mod_pos_eq)
  moreover have "a mod n + 1 \<noteq> 0"
    using assms pos_mod_sign [of n a] by linarith
  ultimately show ?thesis by simp
qed

lemma mod_sub_multiple: "((y::int) - q * n) mod n = y mod n"
  using mod_mult_self1 [of y "- q" n] by simp

lemma DayFromYear_step: "DayFromYear (y + 1) = DayFromYear y + DaysInYear y"
proof -
  have a: "(y + 1 - 1969) div 4 = (y - 1969) div 4 + (if y mod 4 = 0 then 1 else 0)"
    using div_succ [of 4 "y - 1969"] mod_sub_multiple [of y 492 4] by simp
  have b: "(y + 1 - 1901) div 100 = (y - 1901) div 100 + (if y mod 100 = 0 then 1 else 0)"
    using div_succ [of 100 "y - 1901"] mod_sub_multiple [of y 19 100] by simp
  have c: "(y + 1 - 1601) div 400 = (y - 1601) div 400 + (if y mod 400 = 0 then 1 else 0)"
    using div_succ [of 400 "y - 1601"] mod_sub_multiple [of y 4 400] by simp
  have d: "y mod 100 = 0" if "y mod 400 = 0"
    using that mod_mod_cancel [of 100 400 y] by simp
  have e: "y mod 4 = 0" if "y mod 100 = 0"
    using that mod_mod_cancel [of 4 100 y] by simp
  show ?thesis
    using d e unfolding DayFromYear_def DaysInYear_def a b c by auto
qed

lemma DaysInYear_bounds: "365 \<le> DaysInYear y" "DaysInYear y \<le> 366"
  by (simp_all add: DaysInYear_def)

lemma DayFromYear_1970: "DayFromYear 1970 = 0"
  by (simp add: DayFromYear_def)

lemma DayFromYear_after: "DayFromYear y + 365 * int n \<le> DayFromYear (y + int n)"
proof (induction n)
  case 0
  show ?case by simp
next
  case (Suc n)
  have "DayFromYear (y + int (Suc n)) = DayFromYear (y + int n) + DaysInYear (y + int n)"
    using DayFromYear_step [of "y + int n"] by (simp add: ac_simps)
  with Suc DaysInYear_bounds(1) [of "y + int n"] show ?case
    by simp
qed

lemma DayFromYear_before: "DayFromYear y - 366 * int n \<le> DayFromYear (y - int n)"
proof (induction n)
  case 0
  show ?case by simp
next
  case (Suc n)
  have "DayFromYear (y - int n) = DayFromYear (y - int (Suc n)) + DaysInYear (y - int (Suc n))"
    using DayFromYear_step [of "y - int (Suc n)"] by simp
  with Suc DaysInYear_bounds(2) [of "y - int (Suc n)"] show ?case
    by simp
qed

lemma DayFromYear_mono: "y \<le> z \<Longrightarrow> DayFromYear y \<le> DayFromYear z"
  using DayFromYear_after [of y "nat (z - y)"] by simp

lemma year_down_le: "DayFromYear (year_down d y) \<le> d"
proof (induction d y rule: year_down.induct)
  case (1 d y)
  then show ?case
    by (cases "d < DayFromYear y") (simp_all add: year_down.simps [of d y])
qed

lemma year_down_gt: "d < DayFromYear (y + 1) \<Longrightarrow> d < DayFromYear (year_down d y + 1)"
proof (induction d y rule: year_down.induct)
  case (1 d y)
  then show ?case
    by (cases "d < DayFromYear y") (simp_all add: year_down.simps [of d y])
qed

lemma start_bound: "d < DayFromYear (1970 + (if 0 \<le> d then d div 365 else d div 366) + 1 + 1)"
proof (cases "0 \<le> d")
  case True
  then have k: "0 \<le> d div 365"
    by (simp add: pos_imp_zdiv_nonneg_iff)
  have "d < 365 * (d div 365) + 365"
    using pos_mod_bound [of 365 d] mult_div_mod_eq [of 365 d] by linarith
  moreover have "365 * int (nat (d div 365 + 2)) \<le> DayFromYear (1970 + int (nat (d div 365 + 2)))"
    using DayFromYear_after [of 1970 "nat (d div 365 + 2)"] by (simp add: DayFromYear_1970)
  ultimately show ?thesis
    using True k by (simp add: add.assoc)
next
  case False
  have "366 * (d div 366) \<le> d"
    using pos_mod_sign [of 366 d] mult_div_mod_eq [of 366 d] by linarith
  with False have k: "d div 366 \<le> - 1"
    by linarith
  have lt: "d < 366 * (d div 366) + 366"
    using pos_mod_bound [of 366 d] mult_div_mod_eq [of 366 d] by linarith
  show ?thesis
  proof (cases "d div 366 = - 1")
    case True
    have "DayFromYear 1971 = 365"
      by (simp add: DayFromYear_def)
    with False True show ?thesis
      by simp
  next
    case ne: False
    with k have n: "0 \<le> - (d div 366) - 2"
      by simp
    have "- 366 * int (nat (- (d div 366) - 2)) \<le> DayFromYear (1970 - int (nat (- (d div 366) - 2)))"
      using DayFromYear_before [of 1970 "nat (- (d div 366) - 2)"] by (simp add: DayFromYear_1970)
    with n lt False show ?thesis
      by (simp add: algebra_simps)
  qed
qed

lemma YearFromDay_bounds:
  "DayFromYear (YearFromDay d) \<le> d" "d < DayFromYear (YearFromDay d + 1)"
  unfolding YearFromDay_def
  by (rule year_down_le, rule year_down_gt, rule start_bound)









subsection \<open>Digits\<close>

lemma digit_cases:
  assumes "0 \<le> k" and "k \<le> (9::int)"
  shows "k = 0 \<or> k = 1 \<or> k = 2 \<or> k = 3 \<or> k = 4 \<or> k = 5 \<or> k = 6 \<or> k = 7 \<or> k = 8 \<or> k = 9"
proof -
  have "[0..9::int] = [0, 1, 2, 3, 4, 5, 6, 7, 8, 9]"
    by code_simp
  moreover have "k \<in> set [0..9]"
    using assms by simp
  ultimately show ?thesis
    by simp
qed

lemma digit_val_digit_char:
  assumes "0 \<le> k" and "k \<le> 9"
  shows "digit_val (digit_char k) = Some k"
  using digit_cases [OF assms]
  by (elim disjE) (simp_all add: digit_val_def digit_char_def)

lemma is_digit_mod10: "is_digit 10 (digit_char (n mod 10))"
proof -
  have "0 \<le> n mod 10" and "n mod 10 \<le> 9"
    using pos_mod_bound [of 10 n] by simp_all
  then show ?thesis
    by (simp add: is_digit_def digit_val_digit_char)
qed



lemma length_pad [simp]: "length (pad k n) = k"
  by (induction k arbitrary: n) simp_all

lemma digits_pad: "list_all (is_digit 10) (pad k n)"
  by (induction k arbitrary: n) (simp_all add: is_digit_mod10)





subsection \<open>Parsing what was formatted\<close>



subsection \<open>The listing's date and time fields\<close>

lemma year_range_valid:
  assumes "0 \<le> YearFromTime t" and "YearFromTime t \<le> 9999"
  shows "\<bar>t\<bar> \<le> maxTime"
proof -
  define D where "D = Day t"
  have "DayFromYear 0 \<le> DayFromYear (YearFromTime t)"
    and "DayFromYear (YearFromTime t + 1) \<le> DayFromYear 10000"
    using assms by (auto intro: DayFromYear_mono)
  with YearFromDay_bounds [of "Day t"] have D: "- 719528 \<le> D" "D < 2932897"
    by (simp_all add: YearFromTime_def DayFromYear_def D_def)
  have "t = 86400000 * D + t mod 86400000"
    by (simp add: D_def Day_def msPerDay_def)
  moreover have "0 \<le> t mod 86400000" and "t mod 86400000 < 86400000"
    by simp_all
  ultimately show ?thesis
    using D unfolding maxTime_def by linarith
qed

lemma toISOString_slices:
  assumes "0 \<le> YearFromTime t" and "YearFromTime t \<le> 9999"
  shows "\<exists>str. toISOString t = Some str \<and> slice 0 10 str = date_string t
            \<and> slice 11 16 str = time_string t"
proof -
  have "\<bar>t\<bar> \<le> maxTime"
    using assms by (rule year_range_valid)
  with assms show ?thesis
    by (simp add: toISOString_def year_string_def slice_def date_string_def time_string_def)
qed

lemma date_string_shape:
  assumes "0 \<le> YearFromTime t" and "YearFromTime t \<le> 9999"
  shows "is_YYYY_MM_DD (date_string t)"
proof -
  obtain y1 y2 y3 y4 where y: "pad 4 (YearFromTime t) = [y1, y2, y3, y4]"
    by (simp add: eval_nat_numeral)
  obtain m1 m2 where m: "pad 2 (MonthFromTime t + 1) = [m1, m2]"
    by (simp add: numeral_2_eq_2)
  obtain d1 d2 where d: "pad 2 (DateFromTime t) = [d1, d2]"
    by (simp add: numeral_2_eq_2)
  have "list_all (is_digit 10) [y1, y2, y3, y4]" "list_all (is_digit 10) [m1, m2]"
    "list_all (is_digit 10) [d1, d2]"
    using digits_pad [of 4 "YearFromTime t"] digits_pad [of 2 "MonthFromTime t + 1"]
      digits_pad [of 2 "DateFromTime t"]
    by (simp_all only: y m d)
  then show ?thesis
    by (simp add: date_string_def is_YYYY_MM_DD_def y m d)
qed

lemma time_string_shape: "is_HH_MM (time_string t)"
proof -
  obtain h1 h2 where h: "pad 2 (HourFromTime t) = [h1, h2]"
    by (simp add: numeral_2_eq_2)
  obtain m1 m2 where m: "pad 2 (MinFromTime t) = [m1, m2]"
    by (simp add: numeral_2_eq_2)
  have "list_all (is_digit 10) [h1, h2]" "list_all (is_digit 10) [m1, m2]"
    using digits_pad [of 2 "HourFromTime t"] digits_pad [of 2 "MinFromTime t"]
    by (simp_all only: h m)
  then show ?thesis
    by (simp add: time_string_def is_HH_MM_def h m)
qed


subsection \<open>A created session\<close>

lemma post_session_created:
  assumes auth: "authMiddleware e (Some ''admin'') header = Inr u"
    and sd: "sd \<noteq> []" and st: "st \<noteq> []"
    and parse: "Date_parse (sd @ ''T'' @ st @ '':00Z'') = Some ts"
  shows "post_session e now header (Some sd) (Some st) description_b db =
      ((201, SessionBody (SessionJson (of_int (counter_value db + 1)) sd st
                (case description_b of None \<Rightarrow> [] | Some x \<Rightarrow> x))),
       db\<lparr>counters := Some (counter_value db + 1),
          sessions := sessions db @
            [\<lparr>id' = of_int (counter_value db + 1), startAt = ts,
              description = (case description_b of None \<Rightarrow> [] | Some x \<Rightarrow> x),
              createdAt_s = now\<rparr>]\<rparr>)"
  using auth sd st parse
  by (simp add: post_session_def falsy_def getNextSessionId_eq insertOne_def)

section \<open>C7: creating a session\<close>




section \<open>C8: listing the sessions\<close>

text \<open>
  C8, as the code has it. For a request that the middleware passes, on a store whose
  sessions start in the years 0000 to 9999 (UTC), the answer is 200 with one entry
  for every stored session, in descending order of \<open>startAt\<close>; the entry's
  \<open>startDate\<close> is the UTC year, month and day of \<open>startAt\<close>, of the shape
  \<open>YYYY-MM-DD\<close>, and its \<open>startTime\<close> the UTC hours and minutes, of the shape \<open>HH:MM\<close>.
\<close>

theorem get_sessions_listing:
  assumes auth: "authMiddleware e None header = Inr u"
    and years: "\<forall>s \<in> set (sessions db).
                  0 \<le> YearFromTime (startAt s) \<and> YearFromTime (startAt s) \<le> 9999"
  shows "get_sessions e header db =
           (200, SessionsBody
              (map (\<lambda>d. SessionJson (id' d) (date_string (startAt d)) (time_string (startAt d))
                           (description d))
                 (sort_startAt_desc (sessions db))))
       \<and> mset (sort_startAt_desc (sessions db)) = mset (sessions db)
       \<and> sorted_wrt (\<lambda>a b. startAt b \<le> startAt a) (sort_startAt_desc (sessions db))
       \<and> (\<forall>d \<in> set (sessions db).
             is_YYYY_MM_DD (date_string (startAt d)) \<and> is_HH_MM (time_string (startAt d)))"
proof -
  let ?docs = "sort_startAt_desc (sessions db)"
  let ?g = "\<lambda>d. SessionJson (id' d) (date_string (startAt d)) (time_string (startAt d))
                           (description d)"
  have "\<And>d. d \<in> set ?docs \<Longrightarrow> session_view d = Some (?g d)"
  proof -
    fix d assume "d \<in> set ?docs"
    then have "d \<in> set (sessions db)"
      by (simp add: sort_startAt_desc_def)
    with years have "0 \<le> YearFromTime (startAt d)" and "YearFromTime (startAt d) \<le> 9999"
      by blast+
    then obtain str where "toISOString (startAt d) = Some str"
      and "slice 0 10 str = date_string (startAt d)"
      and "slice 11 16 str = time_string (startAt d)"
      using toISOString_slices by blast
    then show "session_view d = Some (?g d)"
      by (simp add: session_view_def)
  qed
  then have "those (map session_view ?docs) = Some (map ?g ?docs)"
    by (rule those_map_Some)
  with auth have resp: "get_sessions e header db = (200, SessionsBody (map ?g ?docs))"
    by (simp add: get_sessions_def)
  have all: "mset ?docs = mset (sessions db)"
    by (simp add: sort_startAt_desc_def)
  have "sorted (map (\<lambda>d. - startAt d) ?docs)"
    by (simp add: sort_startAt_desc_def)
  then have desc: "sorted_wrt (\<lambda>a b. startAt b \<le> startAt a) ?docs"
    by (simp add: sorted_map)
  have shape: "\<forall>d \<in> set (sessions db).
      is_YYYY_MM_DD (date_string (startAt d)) \<and> is_HH_MM (time_string (startAt d))"
    using years by (simp add: date_string_shape time_string_shape)
  from resp all desc shape show ?thesis
    by (intro conjI)
qed

text \<open>
  The theorem at a concrete store with two sessions, on 2024-01-01 and 2024-01-02 at
  10:00: the later session comes first.
\<close>

theorem get_sessions_listing_witness:
  "authMiddleware env0 None (Some bob) = Inr (ReqUser ''bob'' ''player'')
   \<and> YearFromTime 1704103200000 = 2024
   \<and> YearFromTime 1704189600000 = 2024
   \<and> get_sessions env0 (Some bob) store1 =
       (200, SessionsBody [SessionJson 6 ''2024-01-02'' ''10:00'' [],
                           SessionJson 5 ''2024-01-01'' ''10:00'' []])"
proof -
  have years: "\<forall>s \<in> set (sessions store1).
      0 \<le> YearFromTime (startAt s) \<and> YearFromTime (startAt s) \<le> 9999"
    by (simp add: store1_def mk_session_def YearFromTime_2024)
  have "get_sessions env0 (Some bob) store1 =
       (200, SessionsBody [SessionJson 6 ''2024-01-02'' ''10:00'' [],
                           SessionJson 5 ''2024-01-01'' ''10:00'' []])"
    using get_sessions_listing [OF auth_any_bob years]
    by (simp add: store1_def mk_session_def sort_startAt_desc_def strings_2024)
  with auth_any_bob YearFromTime_2024 show ?thesis
    by (intro conjI)
qed

text \<open>
  C8 as stated fails for a session in the year 10000, which the administrator can
  create: the listing's \<open>startDate\<close> is \<open>+010000-01\<close> and its \<open>startTime\<close> is \<open>01T00\<close>.
\<close>

theorem get_sessions_counterexample:
  "snd (post_session env0 5 (Some root) (Some ''+010000-01-01'') (Some ''00:00'') None store0) =
     store0\<lparr>counters := Some 1,
            sessions := [\<lparr>id' = 1, startAt = 253402300800000, description = [],
                          createdAt_s = 5\<rparr>]\<rparr>
   \<and> get_sessions env0 (Some bob)
       (snd (post_session env0 5 (Some root) (Some ''+010000-01-01'') (Some ''00:00'') None store0)) =
       (200, SessionsBody [SessionJson 1 ''+010000-01'' ''01T00'' []])
   \<and> \<not> is_YYYY_MM_DD ''+010000-01''
   \<and> \<not> is_HH_MM ''01T00''"
proof -
  have ne: "''+010000-01-01'' \<noteq> []" "''00:00'' \<noteq> []"
    by simp_all
  have parse: "Date_parse (''+010000-01-01'' @ ''T'' @ ''00:00'' @ '':00Z'') = Some 253402300800000"
    using Date_parse_expanded_year by simp
  have post: "snd (post_session env0 5 (Some root) (Some ''+010000-01-01'') (Some ''00:00'') None store0) =
     store0\<lparr>counters := Some 1,
            sessions := [\<lparr>id' = 1, startAt = 253402300800000, description = [],
                          createdAt_s = 5\<rparr>]\<rparr>"
    using post_session_created [OF auth_admin_root ne parse, of 5 None store0]
    by (simp add: counter_value_def store0_def)
  have "get_sessions env0 (Some bob)
       (snd (post_session env0 5 (Some root) (Some ''+010000-01-01'') (Some ''00:00'') None store0)) =
       (200, SessionsBody [SessionJson 1 ''+010000-01'' ''01T00'' []])"
    by (simp add: post get_sessions_def auth_any_bob sort_startAt_desc_def session_view_def
          toISOString_10000 slice_def)
  with post not_shapes(2,3) show ?thesis
    by (intro conjI)
qed

section \<open>C9: player registration\<close>






section \<open>C10: the session id path parameter\<close>



end
